theory Spec2Isabelle
  imports Main
begin

section \<open>Python string primitives used by AptDat.py\<close>

text \<open>
  A Python \<open>str\<close> is modelled as a \<open>string\<close> whose characters are ASCII code points.
  The primitives below follow CPython on ASCII text: \<open>str.strip()\<close>, \<open>str.split(' ')\<close>,
  \<open>re.sub(' +', ' ', s)\<close>, \<open>str.splitlines()\<close>, \<open>str.upper()\<close>, \<open>' '.join\<close>, the
  substring test \<open>in\<close>, and the literals accepted by \<open>int()\<close> and \<open>float()\<close>.
\<close>

abbreviation SP :: char where "SP \<equiv> CHR '' ''"
abbreviation TAB :: char where "TAB \<equiv> CHR 0x09"
abbreviation LF :: char where "LF \<equiv> CHR 0x0A"
abbreviation CR :: char where "CR \<equiv> CHR 0x0D"

text \<open>\<open>str.isspace\<close> on ASCII: tab, LF, VT, FF, CR, the separators 0x1C..0x1F, and space.\<close>

definition isspace :: "char \<Rightarrow> bool" where
  "isspace c \<longleftrightarrow> c \<in> set [TAB, LF, CHR 0x0B, CHR 0x0C, CR, CHR 0x1C, CHR 0x1D, CHR 0x1E, CHR 0x1F, SP]"

text \<open>\<open>s.strip()\<close>: remove leading and trailing whitespace.\<close>

definition strip :: "string \<Rightarrow> string" where
  "strip s = rev (dropWhile isspace (rev (dropWhile isspace s)))"

text \<open>\<open>s.split(' ')\<close>: cut at every single space; \<open>cur\<close> is the field being read.\<close>

fun split_from :: "string \<Rightarrow> string \<Rightarrow> string list" where
  "split_from [] cur = [cur]"
| "split_from (c # cs) cur =
     (if c = SP then cur # split_from cs [] else split_from cs (cur @ [c]))"

definition split_space :: "string \<Rightarrow> string list" where
  "split_space s = split_from s []"

text \<open>\<open>re.sub(' +', ' ', s)\<close>: every maximal run of spaces becomes one space.\<close>

function sub_spaces :: "string \<Rightarrow> string" where
  "sub_spaces [] = []"
| "sub_spaces (c # cs) =
     (if c = SP then SP # sub_spaces (dropWhile (\<lambda>d. d = SP) cs) else c # sub_spaces cs)"
  by pat_completeness auto
termination
  by (relation "measure length") (auto simp: le_imp_less_Suc length_dropWhile_le)

text \<open>\<open>sep.join(xs)\<close>.\<close>

fun join :: "string \<Rightarrow> string list \<Rightarrow> string" where
  "join sep [] = []"
| "join sep [x] = x"
| "join sep (x # y # ys) = x @ sep @ join sep (y # ys)"

text \<open>\<open>sub in s\<close> for strings.\<close>

fun contains :: "string \<Rightarrow> string \<Rightarrow> bool" where
  "contains [] sub = (sub = [])"
| "contains (c # cs) sub = (take (length sub) (c # cs) = sub \<or> contains cs sub)"

text \<open>\<open>s.upper()\<close> on ASCII: the letters a..z are replaced, everything else is kept.\<close>

definition upper_char :: "char \<Rightarrow> char" where
  "upper_char c =
     (case map_of (zip ''abcdefghijklmnopqrstuvwxyz'' ''ABCDEFGHIJKLMNOPQRSTUVWXYZ'') c of
        Some d \<Rightarrow> d
      | None \<Rightarrow> c)"

definition upper :: "string \<Rightarrow> string" where
  "upper s = map upper_char s"

text \<open>
  \<open>s.splitlines()\<close> on ASCII: a line ends at LF, VT, FF, CR, CR LF, 0x1C, 0x1D or 0x1E;
  the terminators are dropped and no empty last line is produced.
\<close>

definition is_linebreak :: "char \<Rightarrow> bool" where
  "is_linebreak c \<longleftrightarrow> c \<in> set [LF, CHR 0x0B, CHR 0x0C, CR, CHR 0x1C, CHR 0x1D, CHR 0x1E]"

fun splitlines_from :: "string \<Rightarrow> string \<Rightarrow> string list" where
  "splitlines_from [] cur = (if cur = [] then [] else [cur])"
| "splitlines_from [c] cur = (if is_linebreak c then [cur] else [cur @ [c]])"
| "splitlines_from (c # d # cs) cur =
     (if c = CR \<and> d = LF then cur # splitlines_from cs []
      else if is_linebreak c then cur # splitlines_from (d # cs) []
      else splitlines_from (d # cs) (cur @ [c]))"

definition splitlines :: "string \<Rightarrow> string list" where
  "splitlines s = splitlines_from s []"

subsection \<open>Number literals\<close>

text \<open>
  \<open>int()\<close> and \<open>float()\<close> strip the C whitespace (tab, LF, VT, FF, CR, space) only.
\<close>

definition is_c_space :: "char \<Rightarrow> bool" where
  "is_c_space c \<longleftrightarrow> c \<in> set [TAB, LF, CHR 0x0B, CHR 0x0C, CR, SP]"

definition c_strip :: "string \<Rightarrow> string" where
  "c_strip s = rev (dropWhile is_c_space (rev (dropWhile is_c_space s)))"

definition is_digit :: "char \<Rightarrow> bool" where
  "is_digit c \<longleftrightarrow> (48::nat) \<le> of_char c \<and> of_char c \<le> (57::nat)"

definition digit_val :: "char \<Rightarrow> nat" where
  "digit_val c = of_char c - 48"

text \<open>
  \<open>digitpart ::= digit (["_"] digit)*\<close>: the value read so far is \<open>acc\<close>; \<open>ok\<close> says that
  the previous character was a digit, so that an underscore or the end may follow.
\<close>

fun digitpart :: "string \<Rightarrow> nat \<Rightarrow> bool \<Rightarrow> nat option" where
  "digitpart [] acc ok = (if ok then Some acc else None)"
| "digitpart (c # cs) acc ok =
     (if is_digit c then digitpart cs (10 * acc + digit_val c) True
      else if c = CHR ''_'' \<and> ok then
        (case cs of [] \<Rightarrow> None | d # _ \<Rightarrow> if is_digit d then digitpart cs acc False else None)
      else None)"

text \<open>
  \<open>int(s)\<close> in base 10; \<open>None\<close> stands for \<open>ValueError\<close>. (The limit that recent
  interpreters put on the number of digits is not modelled.)
\<close>

definition py_int :: "string \<Rightarrow> int option" where
  "py_int s =
     (case c_strip s of
        [] \<Rightarrow> None
      | c # cs \<Rightarrow>
          if c = CHR ''+'' then map_option int (digitpart cs 0 False)
          else if c = CHR ''-'' then map_option (\<lambda>n. - int n) (digitpart cs 0 False)
          else map_option int (digitpart (c # cs) 0 False))"

text \<open>
  The literals \<open>float()\<close> accepts:
  \<open>[sign] (number [exponent] | inf | infinity | nan)\<close> with
  \<open>number ::= [digitpart] "." digitpart | digitpart ["."]\<close> and
  \<open>exponent ::= ("e" | "E") [sign] digitpart\<close>.
\<close>

definition is_digitpart :: "string \<Rightarrow> bool" where
  "is_digitpart s \<longleftrightarrow> digitpart s 0 False \<noteq> None"

definition drop_sign :: "string \<Rightarrow> string" where
  "drop_sign s = (case s of [] \<Rightarrow> [] | c # cs \<Rightarrow> if c = CHR ''+'' \<or> c = CHR ''-'' then cs else s)"

definition is_number :: "string \<Rightarrow> bool" where
  "is_number s =
     (let ip = takeWhile (\<lambda>c. c \<noteq> CHR ''.'') s; rest = dropWhile (\<lambda>c. c \<noteq> CHR ''.'') s
      in case rest of
           [] \<Rightarrow> is_digitpart ip
         | _ # fp \<Rightarrow> (is_digitpart ip \<and> fp = []) \<or> ((ip = [] \<or> is_digitpart ip) \<and> is_digitpart fp))"

definition is_exp_char :: "char \<Rightarrow> bool" where
  "is_exp_char c \<longleftrightarrow> c = CHR ''e'' \<or> c = CHR ''E''"

definition is_floatnumber :: "string \<Rightarrow> bool" where
  "is_floatnumber s =
     (let m = takeWhile (\<lambda>c. \<not> is_exp_char c) s; rest = dropWhile (\<lambda>c. \<not> is_exp_char c) s
      in case rest of
           [] \<Rightarrow> is_number m
         | _ # ex \<Rightarrow> is_number m \<and> is_digitpart (drop_sign ex))"

definition is_float_literal :: "string \<Rightarrow> bool" where
  "is_float_literal s =
     (let t = drop_sign (c_strip s)
      in upper t \<in> set [''INF'', ''INFINITY'', ''NAN''] \<or> is_floatnumber t)"

text \<open>
  Floating-point arithmetic is not interpreted: a Python float is represented by the
  expression that computes it, \<open>Float s\<close> being the value of \<open>float(s)\<close>.
\<close>

datatype pyfloat = Float string | FAdd pyfloat pyfloat | FMul pyfloat pyfloat

text \<open>\<open>float(s)\<close>; \<open>None\<close> stands for \<open>ValueError\<close>.\<close>

definition py_float :: "string \<Rightarrow> pyfloat option" where
  "py_float s = (if is_float_literal s then Some (Float s) else None)"

subsection \<open>Exceptions and list access\<close>

text \<open>
  The exceptions the module can raise. An \<open>AssertionError\<close> carries the assertion that
  failed, in place of its message.
\<close>

datatype assertion =
  NoHeaderLine | MultipleHeaderLines | NoRunwayLines | NotARunway | DuplicateIds | IndexTooLarge

datatype error = AssertionError assertion | IndexError | ValueError | KeyError

text \<open>
  \<open>xs[i]\<close> for a literal index \<open>i \<ge> 0\<close>, and \<open>xs[k]\<close> for a Python integer, where a negative
  \<open>k\<close> counts from the end.
\<close>

definition index :: "'a list \<Rightarrow> nat \<Rightarrow> error + 'a" where
  "index xs i = (if i < length xs then Inr (xs ! i) else Inl IndexError)"

definition py_index :: "'a list \<Rightarrow> int \<Rightarrow> error + 'a" where
  "py_index xs k =
     (let n = int (length xs); j = (if k < 0 then n + k else k)
      in if 0 \<le> j \<and> j < n then Inr (xs ! nat j) else Inl IndexError)"

text \<open>Running a comprehension whose element expression may raise: the first error wins.\<close>

fun collect :: "(error + 'a) list \<Rightarrow> error + 'a list" where
  "collect [] = Inr []"
| "collect (r # rs) =
     (case r of
        Inl e \<Rightarrow> Inl e
      | Inr x \<Rightarrow> (case collect rs of Inl e \<Rightarrow> Inl e | Inr xs \<Rightarrow> Inr (x # xs)))"

section \<open>class RunwayType, class AptDatLine\<close>

definition WED_LINE_ENDING :: string where
  "WED_LINE_ENDING = [LF]"

datatype RunwayType = LAND_RUNWAY | WATER_RUNWAY | HELIPAD

fun int_RunwayType :: "RunwayType \<Rightarrow> int" where
  "int_RunwayType LAND_RUNWAY = 100"
| "int_RunwayType WATER_RUNWAY = 101"
| "int_RunwayType HELIPAD = 102"

text \<open>The row code is an \<open>int\<close> when the first field parses as one, and the field itself otherwise.\<close>

datatype rowcode = IntCode int | StrCode string

record AptDatLine =
  raw :: string
  row_code :: rowcode

text \<open>\<open>AptDatLine.__init__\<close>; the \<open>ValueError\<close> of \<open>int\<close> is suppressed.\<close>

definition AptDatLine_init :: "string \<Rightarrow> error + AptDatLine" where
  "AptDatLine_init line_text =
     (case index (split_space (strip line_text)) 0 of
        Inl e \<Rightarrow> Inl e
      | Inr tok \<Rightarrow>
          Inr \<lparr>raw = line_text,
               row_code = (case py_int tok of Some i \<Rightarrow> IntCode i | None \<Rightarrow> StrCode tok)\<rparr>)"

definition is_runway :: "AptDatLine \<Rightarrow> bool" where
  "is_runway l \<longleftrightarrow>
     row_code l \<in> set [IntCode (int_RunwayType LAND_RUNWAY), IntCode (int_RunwayType WATER_RUNWAY),
                        IntCode (int_RunwayType HELIPAD)]"

definition is_file_header :: "AptDatLine \<Rightarrow> bool" where
  "is_file_header l \<longleftrightarrow>
     row_code l \<in> set [StrCode ''I'', StrCode ''A''] \<or> contains (raw l) ''Generated by WorldEditor''"

definition is_ignorable :: "AptDatLine \<Rightarrow> bool" where
  "is_ignorable l \<longleftrightarrow> row_code l = IntCode 99 \<or> is_file_header l \<or> strip (raw l) = []"

definition is_airport_header :: "AptDatLine \<Rightarrow> bool" where
  "is_airport_header l \<longleftrightarrow> row_code l \<in> set [IntCode 1, IntCode 16, IntCode 17]"

text \<open>\<open>RunwayType(value)\<close>: the member with that value, \<open>ValueError\<close> when there is none.\<close>

definition RunwayType_of :: "rowcode \<Rightarrow> error + RunwayType" where
  "RunwayType_of rc =
     (if rc = IntCode 100 then Inr LAND_RUNWAY
      else if rc = IntCode 101 then Inr WATER_RUNWAY
      else if rc = IntCode 102 then Inr HELIPAD
      else Inl ValueError)"

definition runway_type :: "AptDatLine \<Rightarrow> error + RunwayType" where
  "runway_type l =
     (if \<not> is_runway l then Inl (AssertionError NotARunway) else RunwayType_of (row_code l))"

text \<open>\<open>AptDatLine.__str__\<close>, \<open>tokens\<close> and \<open>__bool__\<close>.\<close>

definition str_AptDatLine :: "AptDatLine \<Rightarrow> string" where
  "str_AptDatLine l = sub_spaces (strip (raw l))"

definition tokens :: "AptDatLine \<Rightarrow> string list" where
  "tokens l = split_space (str_AptDatLine l)"

definition bool_AptDatLine :: "AptDatLine \<Rightarrow> bool" where
  "bool_AptDatLine l \<longleftrightarrow> \<not> is_ignorable l"

section \<open>class Airport\<close>

record Airport =
  name :: string
  id_apt :: string
  from_file :: string
  has_atc :: bool
  elevation_ft_amsl :: pyfloat
  text_apt :: "AptDatLine list"

definition bool_Airport :: "Airport \<Rightarrow> bool" where
  "bool_Airport a \<longleftrightarrow> id_apt a \<noteq> []"

definition str_Airport :: "Airport \<Rightarrow> string" where
  "str_Airport a = join WED_LINE_ENDING (map raw (text_apt a))"

text \<open>\<open>float(line.tokens[i])\<close> and \<open>0.5 * (x + y)\<close>, the left operand evaluated first.\<close>

definition float_token :: "AptDatLine \<Rightarrow> nat \<Rightarrow> error + pyfloat" where
  "float_token l i =
     (case index (tokens l) i of
        Inl e \<Rightarrow> Inl e
      | Inr t \<Rightarrow> (case py_float t of None \<Rightarrow> Inl ValueError | Some x \<Rightarrow> Inr x))"

definition half_sum :: "error + pyfloat \<Rightarrow> error + pyfloat \<Rightarrow> error + pyfloat" where
  "half_sum a b =
     (case a of
        Inl e \<Rightarrow> Inl e
      | Inr x \<Rightarrow> (case b of Inl e \<Rightarrow> Inl e | Inr y \<Rightarrow> Inr (FMul (Float ''0.5'') (FAdd x y))))"

definition latitude :: "Airport \<Rightarrow> error + pyfloat" where
  "latitude a =
     (let runways = filter is_runway (text_apt a)
      in if runways = [] then Inl (AssertionError NoRunwayLines)
         else case index runways 0 of
                Inl e \<Rightarrow> Inl e
              | Inr rwy_0 \<Rightarrow>
                  (case runway_type rwy_0 of
                     Inl e \<Rightarrow> Inl e
                   | Inr LAND_RUNWAY \<Rightarrow> half_sum (float_token rwy_0 9) (float_token rwy_0 18)
                   | Inr WATER_RUNWAY \<Rightarrow> half_sum (float_token rwy_0 4) (float_token rwy_0 7)
                   | Inr HELIPAD \<Rightarrow> float_token rwy_0 2))"

definition longitude :: "Airport \<Rightarrow> error + pyfloat" where
  "longitude a =
     (let runways = filter is_runway (text_apt a)
      in if runways = [] then Inl (AssertionError NoRunwayLines)
         else case index runways 0 of
                Inl e \<Rightarrow> Inl e
              | Inr rwy_0 \<Rightarrow>
                  (case runway_type rwy_0 of
                     Inl e \<Rightarrow> Inl e
                   | Inr LAND_RUNWAY \<Rightarrow> half_sum (float_token rwy_0 10) (float_token rwy_0 19)
                   | Inr WATER_RUNWAY \<Rightarrow> half_sum (float_token rwy_0 5) (float_token rwy_0 8)
                   | Inr HELIPAD \<Rightarrow> float_token rwy_0 3))"

text \<open>
  \<open>Airport.from_lines\<close>: an element of the argument is an \<open>AptDatLine\<close> or a \<open>str\<close>. The
  keyword arguments are evaluated in the order written: name, id, elevation, ATC flag.
\<close>

datatype line_arg = Line AptDatLine | Str string

fun to_line :: "line_arg \<Rightarrow> error + AptDatLine" where
  "to_line (Line l) = Inr l"
| "to_line (Str s) = AptDatLine_init s"

definition from_lines :: "line_arg list \<Rightarrow> string \<Rightarrow> error + Airport" where
  "from_lines apt_dat_lines from_file_name =
     (case collect (map to_line apt_dat_lines) of
        Inl e \<Rightarrow> Inl e
      | Inr lines \<Rightarrow>
          (let apt_header_lines = filter is_airport_header lines
           in if length apt_header_lines = 0 then Inl (AssertionError NoHeaderLine)
              else if length apt_header_lines \<noteq> 1 then Inl (AssertionError MultipleHeaderLines)
              else case index apt_header_lines 0 of
                     Inl e \<Rightarrow> Inl e
                   | Inr h \<Rightarrow>
                       (case index (tokens h) 4 of
                          Inl e \<Rightarrow> Inl e
                        | Inr ident \<Rightarrow>
                            (case float_token h 1 of
                               Inl e \<Rightarrow> Inl e
                             | Inr elev \<Rightarrow>
                                 (case index (tokens h) 2 of
                                    Inl e \<Rightarrow> Inl e
                                  | Inr t2 \<Rightarrow>
                                      (case py_int t2 of
                                         None \<Rightarrow> Inl ValueError
                                       | Some atc \<Rightarrow>
                                           Inr \<lparr>name = join '' '' (drop 5 (tokens h)),
                                                id_apt = ident,
                                                from_file = from_file_name,
                                                has_atc = (atc \<noteq> 0),
                                                elevation_ft_amsl = elev,
                                                text_apt = lines\<rparr>))))))"

definition from_str :: "string \<Rightarrow> string \<Rightarrow> error + Airport" where
  "from_str file_text from_file_name =
     (case collect (map AptDatLine_init (splitlines file_text)) of
        Inl e \<Rightarrow> Inl e
      | Inr ls \<Rightarrow> from_lines (map Line ls) from_file_name)"

section \<open>class AptDat\<close>

record AptDat =
  airports :: "Airport list"
  path_to_file :: "string option"

text \<open>\<open>AptDat()\<close> with no path.\<close>

definition AptDat_init :: AptDat where
  "AptDat_init = \<lparr>airports = [], path_to_file = None\<rparr>"

text \<open>
  The loop of \<open>_parse_text\<close>: \<open>apt_lines\<close> is the airport being read, \<open>apts\<close> is
  \<open>self.airports\<close>. The result is the pair of both when the input is exhausted.
\<close>

fun parse_loop ::
  "string list \<Rightarrow> AptDatLine list \<Rightarrow> Airport list \<Rightarrow> string \<Rightarrow> error + AptDatLine list \<times> Airport list"
where
  "parse_loop [] apt_lines apts from_file_name = Inr (apt_lines, apts)"
| "parse_loop (l # ls) apt_lines apts from_file_name =
     (case AptDatLine_init l of
        Inl e \<Rightarrow> Inl e
      | Inr line \<Rightarrow>
          if is_airport_header line then
            (if apt_lines \<noteq> [] then
               (case from_lines (map Line apt_lines) from_file_name of
                  Inl e \<Rightarrow> Inl e
                | Inr apt \<Rightarrow> parse_loop ls [line] (apts @ [apt]) from_file_name)
             else parse_loop ls [line] apts from_file_name)
          else if \<not> is_ignorable line then parse_loop ls (apt_lines @ [line]) apts from_file_name
          else parse_loop ls apt_lines apts from_file_name)"

text \<open>\<open>AptDat._parse_text\<close>: the text is a list of lines, or one string that is split.\<close>

datatype text_arg = TextLines "string list" | Text string

definition parse_text :: "AptDat \<Rightarrow> text_arg \<Rightarrow> string \<Rightarrow> error + AptDat" where
  "parse_text self apt_dat_text from_file_name =
     (let ls = (case apt_dat_text of TextLines xs \<Rightarrow> xs | Text t \<Rightarrow> splitlines t)
      in case parse_loop ls [] (airports self) from_file_name of
           Inl e \<Rightarrow> Inl e
         | Inr (apt_lines, apts) \<Rightarrow>
             if apt_lines \<noteq> [] then
               (case from_lines (map Line apt_lines) from_file_name of
                  Inl e \<Rightarrow> Inl e
                | Inr apt \<Rightarrow> Inr \<lparr>airports = apts @ [apt], path_to_file = Some from_file_name\<rparr>)
             else Inr \<lparr>airports = apts, path_to_file = Some from_file_name\<rparr>)"

definition from_file_text :: "string \<Rightarrow> string \<Rightarrow> error + AptDat" where
  "from_file_text apt_dat_file_text from_file_name = parse_text AptDat_init (Text apt_dat_file_text) from_file_name"

definition search_by_predicate :: "AptDat \<Rightarrow> (Airport \<Rightarrow> bool) \<Rightarrow> Airport list" where
  "search_by_predicate self predicate_fn = filter predicate_fn (airports self)"

definition search_by_id :: "AptDat \<Rightarrow> string \<Rightarrow> error + Airport option" where
  "search_by_id self apt_id =
     (let found = search_by_predicate self (\<lambda>apt. upper (id_apt apt) = upper apt_id)
      in if found \<noteq> [] then
           (if length found \<noteq> 1 then Inl (AssertionError DuplicateIds)
            else case index found 0 of Inl e \<Rightarrow> Inl e | Inr apt \<Rightarrow> Inr (Some apt))
         else Inr None)"

definition search_by_name :: "AptDat \<Rightarrow> string \<Rightarrow> Airport list" where
  "search_by_name self apt_name =
     search_by_predicate self (\<lambda>apt. upper (name apt) = upper apt_name)"

text \<open>
  \<open>AptDat.__getitem__\<close>: an integer key indexes the list; a string key returns the first
  truthy result of the id search (an airport) and the name search (a list of airports).
\<close>

datatype key = IntKey int | StrKey string

datatype item = OneAirport Airport | AirportList "Airport list"

definition getitem :: "AptDat \<Rightarrow> key \<Rightarrow> error + item" where
  "getitem self k =
     (case k of
        IntKey i \<Rightarrow>
          if \<not> i < int (length (airports self)) then Inl (AssertionError IndexTooLarge)
          else (case py_index (airports self) i of Inl e \<Rightarrow> Inl e | Inr apt \<Rightarrow> Inr (OneAirport apt))
      | StrKey s \<Rightarrow>
          (case search_by_id self s of
             Inl e \<Rightarrow> Inl e
           | Inr r1 \<Rightarrow>
               (case (case r1 of None \<Rightarrow> None | Some apt \<Rightarrow> if bool_Airport apt then Some apt else None) of
                  Some apt \<Rightarrow> Inr (OneAirport apt)
                | None \<Rightarrow>
                    (let r2 = search_by_name self s
                     in if r2 \<noteq> [] then Inr (AirportList r2) else Inl KeyError))))"

section \<open>The line classifier as the specification words it\<close>

text \<open>
  The specification speaks of whitespace where the code cuts at the space character only.
  These definitions follow the specification's words; they are compared with the code below.
\<close>

text \<open>The first token, ``splitting on the first run of whitespace''.\<close>

definition spec_first_token :: "string \<Rightarrow> string" where
  "spec_first_token s = takeWhile (\<lambda>c. \<not> isspace c) (strip s)"

definition spec_row_code :: "string \<Rightarrow> rowcode" where
  "spec_row_code s =
     (case py_int (spec_first_token s) of
        Some i \<Rightarrow> IntCode i
      | None \<Rightarrow> StrCode (spec_first_token s))"

text \<open>``Every interior run of whitespace collapsed to a single space''.\<close>

function spec_collapse_whitespace :: "string \<Rightarrow> string" where
  "spec_collapse_whitespace [] = []"
| "spec_collapse_whitespace (c # cs) =
     (if isspace c then SP # spec_collapse_whitespace (dropWhile isspace cs)
      else c # spec_collapse_whitespace cs)"
  by pat_completeness auto
termination
  by (relation "measure length") (auto simp: le_imp_less_Suc length_dropWhile_le)

definition spec_tokens :: "string \<Rightarrow> string list" where
  "spec_tokens s = split_space (spec_collapse_whitespace (strip s))"

text \<open>The non-empty fields between the spaces of a string.\<close>

abbreviation fields :: "string \<Rightarrow> string list" where
  "fields s \<equiv> filter (\<lambda>w. w \<noteq> []) (split_space s)"

text \<open>
  The invariant of the specification's data model: the payload holds exactly one
  airport-header line, and it is the first line.
\<close>

definition one_header_first :: "Airport \<Rightarrow> bool" where
  "one_header_first apt \<longleftrightarrow>
     length (filter is_airport_header (text_apt apt)) = 1 \<and> text_apt apt \<noteq> [] \<and>
     is_airport_header (hd (text_apt apt))"

section \<open>Basic facts about the primitives\<close>

lemma split_from_hd:
  "\<exists>ws. split_from s cur = (cur @ takeWhile (\<lambda>c. c \<noteq> SP) s) # ws"
proof (induction s arbitrary: cur)
  case Nil
  then show ?case by simp
next
  case (Cons a s)
  from Cons [of "cur @ [a]"] show ?case by simp
qed

lemma index_split_space_0:
  "index (split_space s) 0 = Inr (takeWhile (\<lambda>c. c \<noteq> SP) s)"
  using split_from_hd [of s "[]"] by (auto simp: index_def split_space_def)

lemma AptDatLine_init_eq:
  "AptDatLine_init s =
     Inr \<lparr>raw = s,
          row_code = (case py_int (takeWhile (\<lambda>c. c \<noteq> SP) (strip s)) of
                        Some i \<Rightarrow> IntCode i
                      | None \<Rightarrow> StrCode (takeWhile (\<lambda>c. c \<noteq> SP) (strip s)))\<rparr>"
  by (simp add: AptDatLine_init_def index_split_space_0)

lemma collect_Line [simp]: "collect (map (to_line \<circ> Line) xs) = Inr xs"
  by (induction xs) auto

lemma collect_init_Cons:
  "collect (map AptDatLine_init (s # ss)) = Inr ls \<Longrightarrow>
     \<exists>l ls'. AptDatLine_init s = Inr l \<and> collect (map AptDatLine_init ss) = Inr ls' \<and> ls = l # ls'"
  by (auto split: sum.splits)

lemma collect_init_total: "\<exists>ls. collect (map AptDatLine_init ss) = Inr ls"
  by (induction ss) (auto simp: AptDatLine_init_eq)

lemma collect_init_raw:
  "collect (map AptDatLine_init ss) = Inr ls \<Longrightarrow> map raw ls = ss"
  by (induction ss arbitrary: ls) (auto simp: AptDatLine_init_eq split: sum.splits)

lemmas line_defs =
  AptDatLine_init_def index_def split_space_def strip_def isspace_def py_int_def c_strip_def
  is_c_space_def is_digit_def digit_val_def is_airport_header_def is_ignorable_def
  is_file_header_def

lemmas int_defs = py_int_def c_strip_def is_c_space_def is_digit_def digit_val_def

lemmas token_defs = tokens_def str_AptDatLine_def

lemmas float_defs =
  py_float_def is_float_literal_def is_floatnumber_def is_number_def is_digitpart_def
  drop_sign_def is_exp_char_def upper_def upper_char_def float_token_def

section \<open>Row codes and tokens\<close>

text \<open>
  Claim C7, as the code has it. The row code is read from the text before the first space
  character of the stripped line (\<open>split(' ')[0]\<close>): a tab or another whitespace character
  does not end the first field. That field is the row code as an integer when \<open>int\<close>
  accepts it and as a string otherwise, and the construction of a line never fails.
\<close>

theorem row_code_first_field:
  "\<exists>l. AptDatLine_init s = Inr l \<and> raw l = s \<and>
       row_code l =
         (case py_int (takeWhile (\<lambda>c. c \<noteq> SP) (strip s)) of
            Some i \<Rightarrow> IntCode i
          | None \<Rightarrow> StrCode (takeWhile (\<lambda>c. c \<noteq> SP) (strip s)))"
  by (simp add: AptDatLine_init_eq)

text \<open>
  The claim as stated fails on a line whose fields are separated by a tab: splitting on the
  first run of whitespace gives the row code 1, the code keeps the string up to the first
  space.
\<close>

theorem row_code_first_field_counterexample:
  "AptDatLine_init (CHR ''1'' # TAB # ''433 KSEA'') =
     Inr \<lparr>raw = CHR ''1'' # TAB # ''433 KSEA'', row_code = StrCode (CHR ''1'' # TAB # ''433'')\<rparr>
   \<and> spec_row_code (CHR ''1'' # TAB # ''433 KSEA'') = IntCode 1"
  by (simp add: line_defs spec_row_code_def spec_first_token_def)

lemma split_from_acc:
  "split_from s cur = (cur @ hd (split_from s [])) # tl (split_from s [])"
proof (induction s arbitrary: cur)
  case Nil
  then show ?case by simp
next
  case (Cons a s)
  show ?case
  proof (cases "a = SP")
    case True
    then show ?thesis by simp
  next
    case False
    have 1: "split_from s (cur @ [a]) = ((cur @ [a]) @ hd (split_from s [])) # tl (split_from s [])"
      by (rule Cons.IH)
    have 2: "split_from s [a] = ([a] @ hd (split_from s [])) # tl (split_from s [])"
      by (rule Cons.IH)
    have "split_from (a # s) cur = split_from s (cur @ [a])" using False by simp
    also have "\<dots> = (cur @ a # hd (split_from s [])) # tl (split_from s [])"
      by (simp only: 1 append_assoc append_Cons append_Nil)
    finally have A: "split_from (a # s) cur = (cur @ a # hd (split_from s [])) # tl (split_from s [])" .
    have "split_from (a # s) [] = split_from s [a]" using False by simp
    then have B: "split_from (a # s) [] = (a # hd (split_from s [])) # tl (split_from s [])"
      by (simp only: 2 append_Cons append_Nil)
    show ?thesis by (simp only: A B list.sel)
  qed
qed

lemma split_space_Nil [simp]: "split_space [] = [[]]"
  by (simp add: split_space_def)

lemma split_space_Cons:
  "split_space (c # cs) =
     (if c = SP then [] # split_space cs else (c # hd (split_space cs)) # tl (split_space cs))"
  using split_from_acc [of cs "[c]"] by (simp add: split_space_def)

lemma fields_dropWhile: "fields (dropWhile (\<lambda>d. d = SP) s) = fields s"
  by (induction s) (simp_all add: split_space_Cons)

lemma last_dropWhile_keep:
  "s \<noteq> [] \<Longrightarrow> \<not> P (last s) \<Longrightarrow> dropWhile P s \<noteq> [] \<and> last (dropWhile P s) = last s"
  by (induction s) (auto split: if_splits)

lemma last_dropWhile_eq: "dropWhile P s \<noteq> [] \<Longrightarrow> last (dropWhile P s) = last s"
  by (induction s) (auto split: if_splits)

lemma split_sub_spaces:
  "s \<noteq> [] \<Longrightarrow> last s \<noteq> SP \<Longrightarrow>
     split_space (sub_spaces s) = (if hd s = SP then [[]] else []) @ fields s"
proof (induction s rule: sub_spaces.induct)
  case 1
  then show ?case by simp
next
  case (2 c cs)
  show ?case
  proof (cases "c = SP")
    case True
    let ?d = "dropWhile (\<lambda>d. d = SP) cs"
    from "2.prems" True have cs: "cs \<noteq> []" "last cs \<noteq> SP" by (auto split: if_splits)
    then have d: "?d \<noteq> []" "last ?d \<noteq> SP"
      using last_dropWhile_keep [of cs "\<lambda>d. d = SP"] by auto
    have hd: "hd ?d \<noteq> SP" using d(1) hd_dropWhile [of "\<lambda>d. d = SP" cs] by auto
    from "2.IH"(1) [OF True d] hd have "split_space (sub_spaces ?d) = fields ?d" by simp
    then show ?thesis using True by (simp add: split_space_Cons fields_dropWhile)
  next
    case False
    show ?thesis
    proof (cases "cs = []")
      case True
      then show ?thesis using False by (simp add: split_space_Cons)
    next
      case ne: False
      with "2.prems" have "last cs \<noteq> SP" by simp
      from "2.IH"(2) [OF False ne this]
      have ih: "split_space (sub_spaces cs) = (if hd cs = SP then [[]] else []) @ fields cs" .
      obtain d ds where cs: "cs = d # ds" using ne by (cases cs) auto
      show ?thesis
      proof (cases "d = SP")
        case True
        with ih cs have "split_space (sub_spaces cs) = [] # fields ds"
          by (simp add: split_space_Cons)
        then show ?thesis using False True cs by (simp add: split_space_Cons)
      next
        case dn: False
        with ih cs have e: "split_space (sub_spaces cs) = fields cs" by simp
        have "sub_spaces (c # cs) = c # sub_spaces cs" using False by simp
        then have "split_space (sub_spaces (c # cs)) = (c # hd (fields cs)) # tl (fields cs)"
          using False e by (simp add: split_space_Cons)
        also have "\<dots> = fields (c # cs)"
          using False dn cs by (simp add: split_space_Cons)
        finally show ?thesis using False by simp
      qed
    qed
  qed
qed

lemma strip_ends:
  assumes "strip s \<noteq> []"
  shows "\<not> isspace (hd (strip s))" and "\<not> isspace (last (strip s))"
proof -
  let ?d = "dropWhile isspace s"
  let ?e = "dropWhile isspace (rev ?d)"
  from assms have e: "?e \<noteq> []" by (simp add: strip_def)
  then have d: "?d \<noteq> []" by (cases "?d = []") simp_all
  have "last (strip s) = hd ?e" using e by (simp add: strip_def last_rev)
  then show "\<not> isspace (last (strip s))" using hd_dropWhile [OF e] by simp
  have "hd (strip s) = last ?e" using e by (simp add: strip_def hd_rev)
  also have "\<dots> = last (rev ?d)" using e by (rule last_dropWhile_eq)
  also have "\<dots> = hd ?d" using d by (simp add: last_rev)
  finally show "\<not> isspace (hd (strip s))" using hd_dropWhile [OF d] by simp
qed

lemma isspace_SP: "isspace SP"
  by (simp add: isspace_def)

lemma tokens_eq_fields:
  "strip (raw l) \<noteq> [] \<Longrightarrow> tokens l = fields (strip (raw l))"
proof -
  assume ne: "strip (raw l) \<noteq> []"
  from strip_ends [OF ne] isspace_SP
  have "hd (strip (raw l)) \<noteq> SP" "last (strip (raw l)) \<noteq> SP" by auto
  with split_sub_spaces [OF ne] show ?thesis
    by (simp add: tokens_def str_AptDatLine_def)
qed

text \<open>
  Claim C6, as the code has it. The normalized form is the line with leading and trailing
  whitespace trimmed and every run of space characters (not of other whitespace) replaced
  by one space; the tokens are that form split at single spaces. So the tokens of a
  non-blank line are the non-empty pieces between the spaces of the trimmed line, and a
  blank line has the single empty token.
\<close>

theorem tokens_space_fields:
  "tokens l = split_space (sub_spaces (strip (raw l))) \<and>
   tokens l =
     (if strip (raw l) = [] then [[]]
      else filter (\<lambda>w. w \<noteq> []) (split_space (strip (raw l))))"
  using tokens_eq_fields [of l] by (simp add: tokens_def str_AptDatLine_def)

text \<open>
  The claim as stated fails on a tab: the specification's normalization would cut the
  line below into three tokens, the code returns two.
\<close>

theorem tokens_space_fields_counterexample:
  "tokens \<lparr>raw = CHR ''1'' # TAB # ''433 KSEA'', row_code = StrCode (CHR ''1'' # TAB # ''433'')\<rparr>
     = [CHR ''1'' # TAB # ''433'', ''KSEA'']
   \<and> spec_tokens (CHR ''1'' # TAB # ''433 KSEA'') = [''1'', ''433'', ''KSEA'']"
  by (simp add: tokens_def str_AptDatLine_def spec_tokens_def split_space_def strip_def isspace_def)

section \<open>Input without any airport header\<close>

lemma from_lines_no_header:
  assumes "ls \<noteq> []" and "\<forall>l\<in>set ls. \<not> is_airport_header l"
  shows "from_lines (map Line ls) f = Inl (AssertionError NoHeaderLine)"
  using assms by (simp add: from_lines_def filter_empty_conv Let_def)

lemma parse_loop_no_header:
  assumes "collect (map AptDatLine_init ss) = Inr ls"
    and "\<forall>l\<in>set ls. \<not> is_airport_header l"
  shows "parse_loop ss acc apts f = Inr (acc @ filter (\<lambda>l. \<not> is_ignorable l) ls, apts)"
  using assms
proof (induction ss arbitrary: ls acc)
  case Nil
  then show ?case by simp
next
  case (Cons s ss)
  then obtain l ls' where l: "AptDatLine_init s = Inr l"
    and ls': "collect (map AptDatLine_init ss) = Inr ls'" and eq: "ls = l # ls'"
    using collect_init_Cons [OF Cons.prems(1)] by blast
  with Cons.IH [of ls'] Cons.prems(2) show ?case by simp
qed

text \<open>
  Claim C5, as the code has it. When no line of the input is an airport header, the lines
  that are not ignorable are still collected, and the group they form is handed to
  \<open>Airport.from_lines\<close>, whose first assertion fails. So parsing returns the container
  with its airports unchanged exactly when every line is ignorable, and raises the
  missing-header \<open>AssertionError\<close> otherwise.
\<close>

theorem parse_text_no_header:
  assumes "collect (map AptDatLine_init ss) = Inr ls"
    and "\<forall>l\<in>set ls. \<not> is_airport_header l"
  shows "parse_text self (TextLines ss) f =
           (if \<forall>l\<in>set ls. is_ignorable l
            then Inr \<lparr>airports = airports self, path_to_file = Some f\<rparr>
            else Inl (AssertionError NoHeaderLine))"
proof -
  have no: "\<forall>l\<in>set (filter (\<lambda>l. \<not> is_ignorable l) ls). \<not> is_airport_header l"
    using assms(2) by simp
  show ?thesis
    using from_lines_no_header [OF _ no, of f]
    by (auto simp: parse_text_def parse_loop_no_header [OF assms] filter_empty_conv)
qed

theorem parse_text_no_header_witness:
  "collect (map AptDatLine_init [''I'', ''1100 Generated by WorldEditor'', [], ''99''])
     = Inr [\<lparr>raw = ''I'', row_code = StrCode ''I''\<rparr>,
            \<lparr>raw = ''1100 Generated by WorldEditor'', row_code = IntCode 1100\<rparr>,
            \<lparr>raw = [], row_code = StrCode []\<rparr>,
            \<lparr>raw = ''99'', row_code = IntCode 99\<rparr>]
   \<and> \<not> is_airport_header \<lparr>raw = ''I'', row_code = StrCode ''I''\<rparr>
   \<and> \<not> is_airport_header \<lparr>raw = ''1100 Generated by WorldEditor'', row_code = IntCode 1100\<rparr>
   \<and> \<not> is_airport_header \<lparr>raw = [], row_code = StrCode []\<rparr>
   \<and> \<not> is_airport_header \<lparr>raw = ''99'', row_code = IntCode 99\<rparr>
   \<and> parse_text AptDat_init (TextLines [''I'', ''1100 Generated by WorldEditor'', [], ''99'']) ''apt.dat''
       = Inr \<lparr>airports = [], path_to_file = Some ''apt.dat''\<rparr>"
proof -
  have c: "collect (map AptDatLine_init [''I'', ''1100 Generated by WorldEditor'', [], ''99''])
     = Inr [\<lparr>raw = ''I'', row_code = StrCode ''I''\<rparr>,
            \<lparr>raw = ''1100 Generated by WorldEditor'', row_code = IntCode 1100\<rparr>,
            \<lparr>raw = [], row_code = StrCode []\<rparr>,
            \<lparr>raw = ''99'', row_code = IntCode 99\<rparr>]"
    by (simp add: line_defs)
  have h: "\<forall>l\<in>set [\<lparr>raw = ''I'', row_code = StrCode ''I''\<rparr>,
            \<lparr>raw = ''1100 Generated by WorldEditor'', row_code = IntCode 1100\<rparr>,
            \<lparr>raw = [], row_code = StrCode []\<rparr>,
            \<lparr>raw = ''99'', row_code = IntCode 99\<rparr>]. \<not> is_airport_header l"
    by (simp add: is_airport_header_def)
  show ?thesis
    using c h parse_text_no_header [OF c h, of AptDat_init "''apt.dat''"]
    by (simp add: line_defs AptDat_init_def)
qed

text \<open>
  The claim as stated fails on an input whose only line is a runway line: there is no
  airport header, and parsing raises instead of returning no airport.
\<close>

theorem parse_text_no_header_counterexample:
  "collect (map AptDatLine_init [''100 runway'']) = Inr [\<lparr>raw = ''100 runway'', row_code = IntCode 100\<rparr>]
   \<and> \<not> is_airport_header \<lparr>raw = ''100 runway'', row_code = IntCode 100\<rparr>
   \<and> parse_text AptDat_init (TextLines [''100 runway'']) ''apt.dat'' = Inl (AssertionError NoHeaderLine)"
  by (simp add: line_defs parse_text_def from_lines_def AptDat_init_def)

section \<open>Building an airport from a segment\<close>

lemma float_token_eq:
  "float_token l i =
     (if i < length (tokens l)
      then (case py_float (tokens l ! i) of None \<Rightarrow> Inl ValueError | Some x \<Rightarrow> Inr x)
      else Inl IndexError)"
  by (simp add: float_token_def index_def)

lemma from_lines_one_header:
  assumes "collect (map to_line seg) = Inr lines" and "filter is_airport_header lines = [h]"
  shows "from_lines seg f =
     (if length (tokens h) < 5 then Inl IndexError
      else case py_float (tokens h ! 1) of
             None \<Rightarrow> Inl ValueError
           | Some elev \<Rightarrow>
               (case py_int (tokens h ! 2) of
                  None \<Rightarrow> Inl ValueError
                | Some atc \<Rightarrow>
                    Inr \<lparr>name = join '' '' (drop 5 (tokens h)), id_apt = tokens h ! 4,
                         from_file = f, has_atc = (atc \<noteq> 0), elevation_ft_amsl = elev,
                         text_apt = lines\<rparr>))"
  using assms
  by (auto simp: from_lines_def index_def float_token_eq Let_def split: option.splits)

lemma collect_to_line_length:
  "collect (map to_line seg) = Inr lines \<Longrightarrow> length lines = length seg"
  by (induction seg arbitrary: lines) (auto split: sum.splits)

lemma AptDatLine_init_raw: "AptDatLine_init s = Inr l \<Longrightarrow> raw l = s"
  by (auto simp: AptDatLine_init_eq)

lemma collect_to_line_nth:
  "collect (map to_line seg) = Inr lines \<Longrightarrow> i < length seg \<Longrightarrow>
     (case seg ! i of Line l \<Rightarrow> lines ! i = l | Str s \<Rightarrow> AptDatLine_init s = Inr (lines ! i))"
proof (induction seg arbitrary: lines i)
  case Nil
  then show ?case by simp
next
  case (Cons a seg)
  then obtain x xs where x: "to_line a = Inr x" "collect (map to_line seg) = Inr xs" "lines = x # xs"
    by (auto split: sum.splits)
  show ?case
  proof (cases i)
    case 0
    then show ?thesis using x by (cases a) auto
  next
    case (Suc j)
    then show ?thesis using Cons.IH [OF x(2), of j] Cons.prems(2) x(3) by (auto split: line_arg.splits)
  qed
qed

lemma collect_to_line_total: "\<exists>lines. collect (map to_line seg) = Inr lines"
proof (induction seg)
  case Nil
  then show ?case by simp
next
  case (Cons a seg)
  then show ?case by (cases a) (auto simp: AptDatLine_init_eq)
qed

lemma from_lines_Inr:
  assumes "from_lines seg f = Inr apt"
  shows "collect (map to_line seg) = Inr (text_apt apt) \<and>
         length (filter is_airport_header (text_apt apt)) = 1"
  using assms
  by (auto simp: from_lines_def Let_def split: sum.splits option.splits if_splits)

lemma header_tokens:
  "tokens \<lparr>raw = ''1   433 1 0 KSEA Seattle  Tacoma Intl'', row_code = IntCode 1\<rparr>
     = [''1'', ''433'', ''1'', ''0'', ''KSEA'', ''Seattle'', ''Tacoma'', ''Intl'']"
  by (simp add: token_defs split_space_def strip_def isspace_def)

text \<open>
  Claim C3, as the code has it. For a segment with exactly one airport-header line \<open>h\<close>,
  \<open>Airport.from_lines\<close> reads the fields from the tokens of \<open>h\<close>: it raises
  \<open>IndexError\<close> when \<open>h\<close> has fewer than five tokens and \<open>ValueError\<close> when
  token 1 is no \<open>float\<close> literal or token 2 no \<open>int\<close> literal; otherwise it builds the
  airport with elevation \<open>float(tokens[1])\<close>, ATC flag \<open>bool(int(tokens[2]))\<close>, id
  \<open>tokens[4]\<close>, name \<open>' '.join(tokens[5:])\<close>, and the whole segment as payload, in
  order, every line with its raw text.
\<close>

theorem from_lines_builds:
  assumes "collect (map to_line seg) = Inr lines" and "filter is_airport_header lines = [h]"
  shows "from_lines seg f =
           (if length (tokens h) < 5 then Inl IndexError
            else case py_float (tokens h ! 1) of
                   None \<Rightarrow> Inl ValueError
                 | Some elev \<Rightarrow>
                     (case py_int (tokens h ! 2) of
                        None \<Rightarrow> Inl ValueError
                      | Some atc \<Rightarrow>
                          Inr \<lparr>name = join '' '' (drop 5 (tokens h)), id_apt = tokens h ! 4,
                               from_file = f, has_atc = (atc \<noteq> 0), elevation_ft_amsl = elev,
                               text_apt = lines\<rparr>))
         \<and> length lines = length seg
         \<and> (\<forall>i<length seg. case seg ! i of Line l \<Rightarrow> lines ! i = l | Str s \<Rightarrow> raw (lines ! i) = s)"
proof -
  have "\<forall>i<length seg. case seg ! i of Line l \<Rightarrow> lines ! i = l | Str s \<Rightarrow> raw (lines ! i) = s"
  proof (intro allI impI)
    fix i assume "i < length seg"
    from collect_to_line_nth [OF assms(1) this] show
      "case seg ! i of Line l \<Rightarrow> lines ! i = l | Str s \<Rightarrow> raw (lines ! i) = s"
      by (auto dest: AptDatLine_init_raw split: line_arg.splits)
  qed
  with from_lines_one_header [OF assms] collect_to_line_length [OF assms(1)] show ?thesis
    by simp
qed

theorem from_lines_builds_witness:
  "collect (map to_line
      [Str ''1   433 1 0 KSEA Seattle  Tacoma Intl'', Line \<lparr>raw = ''100 runway'', row_code = IntCode 100\<rparr>])
     = Inr [\<lparr>raw = ''1   433 1 0 KSEA Seattle  Tacoma Intl'', row_code = IntCode 1\<rparr>,
            \<lparr>raw = ''100 runway'', row_code = IntCode 100\<rparr>]
   \<and> filter is_airport_header
        [\<lparr>raw = ''1   433 1 0 KSEA Seattle  Tacoma Intl'', row_code = IntCode 1\<rparr>,
         \<lparr>raw = ''100 runway'', row_code = IntCode 100\<rparr>]
       = [\<lparr>raw = ''1   433 1 0 KSEA Seattle  Tacoma Intl'', row_code = IntCode 1\<rparr>]
   \<and> from_lines
        [Str ''1   433 1 0 KSEA Seattle  Tacoma Intl'', Line \<lparr>raw = ''100 runway'', row_code = IntCode 100\<rparr>]
        ''apt.dat''
       = Inr \<lparr>name = ''Seattle Tacoma Intl'', id_apt = ''KSEA'', from_file = ''apt.dat'', has_atc = True,
              elevation_ft_amsl = Float ''433'',
              text_apt = [\<lparr>raw = ''1   433 1 0 KSEA Seattle  Tacoma Intl'', row_code = IntCode 1\<rparr>,
                          \<lparr>raw = ''100 runway'', row_code = IntCode 100\<rparr>]\<rparr>"
proof -
  have c: "collect (map to_line
      [Str ''1   433 1 0 KSEA Seattle  Tacoma Intl'', Line \<lparr>raw = ''100 runway'', row_code = IntCode 100\<rparr>])
     = Inr [\<lparr>raw = ''1   433 1 0 KSEA Seattle  Tacoma Intl'', row_code = IntCode 1\<rparr>,
            \<lparr>raw = ''100 runway'', row_code = IntCode 100\<rparr>]"
    by (simp add: line_defs)
  have h: "filter is_airport_header
        [\<lparr>raw = ''1   433 1 0 KSEA Seattle  Tacoma Intl'', row_code = IntCode 1\<rparr>,
         \<lparr>raw = ''100 runway'', row_code = IntCode 100\<rparr>]
       = [\<lparr>raw = ''1   433 1 0 KSEA Seattle  Tacoma Intl'', row_code = IntCode 1\<rparr>]"
    by (simp add: is_airport_header_def)
  show ?thesis
    using c h from_lines_builds [OF c h, of "''apt.dat''"]
    by (simp add: header_tokens float_defs py_int_def c_strip_def is_c_space_def is_digit_def digit_val_def)
qed

text \<open>
  The claim as stated fails on a segment whose only line is a header with four tokens:
  there is exactly one header line, and \<open>tokens[4]\<close> raises.
\<close>

theorem from_lines_builds_counterexample:
  "collect (map to_line [Str ''1 433 1 0'']) = Inr [\<lparr>raw = ''1 433 1 0'', row_code = IntCode 1\<rparr>]
   \<and> filter is_airport_header [\<lparr>raw = ''1 433 1 0'', row_code = IntCode 1\<rparr>]
       = [\<lparr>raw = ''1 433 1 0'', row_code = IntCode 1\<rparr>]
   \<and> from_lines [Str ''1 433 1 0''] ''apt.dat'' = Inl IndexError"
  by (simp add: line_defs token_defs from_lines_def)

section \<open>Segmentation\<close>

lemma parse_loop_append:
  "parse_loop (xs @ ys) acc apts f =
     (case parse_loop xs acc apts f of
        Inl e \<Rightarrow> Inl e
      | Inr (acc', apts') \<Rightarrow> parse_loop ys acc' apts' f)"
  by (induction xs acc apts f rule: parse_loop.induct) (auto split: sum.splits)

lemma parse_loop_ignorable:
  assumes "collect (map AptDatLine_init ss) = Inr ls"
    and "\<forall>l\<in>set ls. is_ignorable l \<and> \<not> is_airport_header l"
  shows "parse_loop ss acc apts f = Inr (acc, apts)"
proof -
  from assms(2) have "filter (\<lambda>l. \<not> is_ignorable l) ls = []" by (simp add: filter_empty_conv)
  with parse_loop_no_header [OF assms(1), of acc apts f] assms(2) show ?thesis by simp
qed

text \<open>
  Claim C1, as the code has it. The input is a run of ignorable lines, one airport-header
  line \<open>h\<close>, and lines none of which is a header. Parsing hands the group
  \<open>h\<close> followed by the non-ignorable lines, in input order, to \<open>Airport.from_lines\<close>. It
  fails when the fields of \<open>h\<close> cannot be read (fewer than five tokens, token 1 no
  float, token 2 no int); otherwise the container gains exactly one airport, whose payload
  is that group. No line after the header is ignorable; the header itself is tested with
  \<open>is_airport_header\<close> first and kept whether or not it is ignorable.
\<close>

theorem parse_text_single_airport:
  assumes pre: "collect (map AptDatLine_init pre) = Inr pls"
    and pre_ign: "\<forall>l\<in>set pls. is_ignorable l \<and> \<not> is_airport_header l"
    and hdr: "AptDatLine_init hs = Inr h" "is_airport_header h"
    and rest: "collect (map AptDatLine_init rest) = Inr rls"
    and rest_nh: "\<forall>l\<in>set rls. \<not> is_airport_header l"
  shows "parse_text self (TextLines (pre @ hs # rest)) f =
           (if length (tokens h) < 5 then Inl IndexError
            else case py_float (tokens h ! 1) of
                   None \<Rightarrow> Inl ValueError
                 | Some elev \<Rightarrow>
                     (case py_int (tokens h ! 2) of
                        None \<Rightarrow> Inl ValueError
                      | Some atc \<Rightarrow>
                          Inr \<lparr>airports = airports self @
                                 [\<lparr>name = join '' '' (drop 5 (tokens h)), id_apt = tokens h ! 4,
                                   from_file = f, has_atc = (atc \<noteq> 0), elevation_ft_amsl = elev,
                                   text_apt = h # filter (\<lambda>l. \<not> is_ignorable l) rls\<rparr>],
                               path_to_file = Some f\<rparr>))"
proof -
  let ?grp = "h # filter (\<lambda>l. \<not> is_ignorable l) rls"
  have loop: "parse_loop (pre @ hs # rest) [] (airports self) f = Inr (?grp, airports self)"
    using hdr parse_loop_no_header [OF rest rest_nh, of "[h]" "airports self" f]
    by (simp add: parse_loop_append parse_loop_ignorable [OF pre pre_ign])
  have one: "filter is_airport_header ?grp = [h]"
    using hdr(2) rest_nh by (simp add: filter_empty_conv)
  have c: "collect (map to_line (map Line ?grp)) = Inr ?grp" by simp
  show ?thesis
    using from_lines_one_header [OF c one, of f] loop
    by (simp add: parse_text_def split: option.splits)
qed

theorem parse_text_single_airport_witness:
  "collect (map AptDatLine_init [''I'', ''1100 Generated by WorldEditor'', []])
     = Inr [\<lparr>raw = ''I'', row_code = StrCode ''I''\<rparr>,
            \<lparr>raw = ''1100 Generated by WorldEditor'', row_code = IntCode 1100\<rparr>,
            \<lparr>raw = [], row_code = StrCode []\<rparr>]
   \<and> AptDatLine_init ''1   433 1 0 KSEA Seattle  Tacoma Intl''
     = Inr \<lparr>raw = ''1   433 1 0 KSEA Seattle  Tacoma Intl'', row_code = IntCode 1\<rparr>
   \<and> is_airport_header \<lparr>raw = ''1   433 1 0 KSEA Seattle  Tacoma Intl'', row_code = IntCode 1\<rparr>
   \<and> collect (map AptDatLine_init [''100 runway'', [], ''21 light'', ''99''])
     = Inr [\<lparr>raw = ''100 runway'', row_code = IntCode 100\<rparr>,
            \<lparr>raw = [], row_code = StrCode []\<rparr>,
            \<lparr>raw = ''21 light'', row_code = IntCode 21\<rparr>,
            \<lparr>raw = ''99'', row_code = IntCode 99\<rparr>]
   \<and> parse_text AptDat_init
        (TextLines ([''I'', ''1100 Generated by WorldEditor'', []] @
           ''1   433 1 0 KSEA Seattle  Tacoma Intl'' # [''100 runway'', [], ''21 light'', ''99'']))
        ''apt.dat''
     = Inr \<lparr>airports =
              [\<lparr>name = ''Seattle Tacoma Intl'', id_apt = ''KSEA'', from_file = ''apt.dat'',
                 has_atc = True, elevation_ft_amsl = Float ''433'',
                 text_apt = [\<lparr>raw = ''1   433 1 0 KSEA Seattle  Tacoma Intl'', row_code = IntCode 1\<rparr>,
                             \<lparr>raw = ''100 runway'', row_code = IntCode 100\<rparr>,
                             \<lparr>raw = ''21 light'', row_code = IntCode 21\<rparr>]\<rparr>],
            path_to_file = Some ''apt.dat''\<rparr>"
proof -
  have pre: "collect (map AptDatLine_init [''I'', ''1100 Generated by WorldEditor'', []])
     = Inr [\<lparr>raw = ''I'', row_code = StrCode ''I''\<rparr>,
            \<lparr>raw = ''1100 Generated by WorldEditor'', row_code = IntCode 1100\<rparr>,
            \<lparr>raw = [], row_code = StrCode []\<rparr>]"
    by (simp add: line_defs)
  have pre_ign: "\<forall>l\<in>set [\<lparr>raw = ''I'', row_code = StrCode ''I''\<rparr>,
            \<lparr>raw = ''1100 Generated by WorldEditor'', row_code = IntCode 1100\<rparr>,
            \<lparr>raw = [], row_code = StrCode []\<rparr>]. is_ignorable l \<and> \<not> is_airport_header l"
    by (simp add: line_defs)
  have hdr: "AptDatLine_init ''1   433 1 0 KSEA Seattle  Tacoma Intl''
     = Inr \<lparr>raw = ''1   433 1 0 KSEA Seattle  Tacoma Intl'', row_code = IntCode 1\<rparr>"
    by (simp add: line_defs)
  have is_hdr: "is_airport_header \<lparr>raw = ''1   433 1 0 KSEA Seattle  Tacoma Intl'', row_code = IntCode 1\<rparr>"
    by (simp add: is_airport_header_def)
  have rest: "collect (map AptDatLine_init [''100 runway'', [], ''21 light'', ''99''])
     = Inr [\<lparr>raw = ''100 runway'', row_code = IntCode 100\<rparr>,
            \<lparr>raw = [], row_code = StrCode []\<rparr>,
            \<lparr>raw = ''21 light'', row_code = IntCode 21\<rparr>,
            \<lparr>raw = ''99'', row_code = IntCode 99\<rparr>]"
    by (simp add: line_defs)
  have rest_nh: "\<forall>l\<in>set [\<lparr>raw = ''100 runway'', row_code = IntCode 100\<rparr>,
            \<lparr>raw = [], row_code = StrCode []\<rparr>,
            \<lparr>raw = ''21 light'', row_code = IntCode 21\<rparr>,
            \<lparr>raw = ''99'', row_code = IntCode 99\<rparr>]. \<not> is_airport_header l"
    by (simp add: is_airport_header_def)
  show ?thesis
    using pre hdr is_hdr rest
      parse_text_single_airport [OF pre pre_ign hdr is_hdr rest rest_nh, of AptDat_init "''apt.dat''"]
    by (simp add: header_tokens float_defs int_defs AptDat_init_def is_ignorable_def
        is_file_header_def strip_def isspace_def)
qed

text \<open>
  The claim as stated fails in two ways. A header line with four tokens is a well-formed
  input of one header line, and parsing raises \<open>IndexError\<close> instead of yielding an
  airport. And a header line whose name contains the banner text of the authoring tool is
  ignorable by \<open>is_ignorable\<close>, yet it is the first line of the payload.
\<close>

theorem parse_text_single_airport_counterexample:
  "(AptDatLine_init ''1 433 1 0'' = Inr \<lparr>raw = ''1 433 1 0'', row_code = IntCode 1\<rparr>
    \<and> is_airport_header \<lparr>raw = ''1 433 1 0'', row_code = IntCode 1\<rparr>
    \<and> parse_text AptDat_init (TextLines [''1 433 1 0'']) ''apt.dat'' = Inl IndexError)
   \<and> (parse_text AptDat_init (TextLines [''1 12 0 0 XGEN Generated by WorldEditor'']) ''apt.dat''
        = Inr \<lparr>airports =
                 [\<lparr>name = ''Generated by WorldEditor'', id_apt = ''XGEN'', from_file = ''apt.dat'',
                    has_atc = False, elevation_ft_amsl = Float ''12'',
                    text_apt = [\<lparr>raw = ''1 12 0 0 XGEN Generated by WorldEditor'',
                                  row_code = IntCode 1\<rparr>]\<rparr>],
               path_to_file = Some ''apt.dat''\<rparr>
    \<and> is_ignorable \<lparr>raw = ''1 12 0 0 XGEN Generated by WorldEditor'', row_code = IntCode 1\<rparr>)"
  by (simp add: line_defs token_defs from_lines_def parse_text_def AptDat_init_def float_defs)

section \<open>The header line of a payload\<close>

lemma from_lines_header_first:
  assumes "from_lines (map Line ls) f = Inr apt"
    and "filter is_airport_header (tl ls) = []"
  shows "one_header_first apt"
proof -
  from from_lines_Inr [OF assms(1)] have t: "text_apt apt = ls"
    and one: "length (filter is_airport_header ls) = 1" by auto
  from one have ne: "ls \<noteq> []" by auto
  then obtain x xs where ls: "ls = x # xs" by (cases ls) auto
  with one assms(2) have "is_airport_header x" by (auto split: if_splits)
  with t one ls show ?thesis by (simp add: one_header_first_def)
qed

lemma parse_loop_invariant:
  assumes "parse_loop ss acc apts f = Inr (acc', apts')"
    and "filter is_airport_header (tl acc) = []"
  shows "filter is_airport_header (tl acc') = [] \<and>
         (\<exists>new. apts' = apts @ new \<and> (\<forall>apt\<in>set new. one_header_first apt))"
  using assms
proof (induction ss arbitrary: acc apts)
  case Nil
  then show ?case by simp
next
  case (Cons s ss)
  obtain line where line: "AptDatLine_init s = Inr line"
    using AptDatLine_init_eq [of s] by blast
  show ?case
  proof (cases "is_airport_header line")
    case True
    show ?thesis
    proof (cases "acc = []")
      case True
      with Cons.prems line \<open>is_airport_header line\<close>
      have "parse_loop ss [line] apts f = Inr (acc', apts')" by simp
      from Cons.IH [OF this] show ?thesis by simp
    next
      case False
      with Cons.prems(1) line True obtain apt where
        apt: "from_lines (map Line acc) f = Inr apt"
        and rest: "parse_loop ss [line] (apts @ [apt]) f = Inr (acc', apts')"
        by (auto split: sum.splits)
      from from_lines_header_first [OF apt Cons.prems(2)] have "one_header_first apt" .
      with Cons.IH [OF rest] show ?thesis by auto
    qed
  next
    case False
    show ?thesis
    proof (cases "is_ignorable line")
      case True
      with Cons.prems line False have "parse_loop ss acc apts f = Inr (acc', apts')" by simp
      from Cons.IH [OF this Cons.prems(2)] show ?thesis .
    next
      case ni: False
      with Cons.prems line False
      have rest: "parse_loop ss (acc @ [line]) apts f = Inr (acc', apts')" by simp
      have "filter is_airport_header (tl (acc @ [line])) = []"
        using Cons.prems(2) False by (cases acc) auto
      from Cons.IH [OF rest this] show ?thesis .
    qed
  qed
qed

lemma parse_text_invariant:
  assumes "parse_text self arg f = Inr self'"
  shows "\<exists>new. airports self' = airports self @ new \<and> (\<forall>apt\<in>set new. one_header_first apt)"
proof -
  let ?ls = "case arg of TextLines xs \<Rightarrow> xs | Text t \<Rightarrow> splitlines t"
  from assms obtain acc apts where loop: "parse_loop ?ls [] (airports self) f = Inr (acc, apts)"
    by (auto simp: parse_text_def Let_def split: sum.splits)
  from parse_loop_invariant [OF loop] obtain new where
    tl: "filter is_airport_header (tl acc) = []" and new: "apts = airports self @ new"
    and all: "\<forall>apt\<in>set new. one_header_first apt" by auto
  show ?thesis
  proof (cases "acc = []")
    case True
    with assms loop new all show ?thesis by (auto simp: parse_text_def Let_def)
  next
    case False
    with assms loop obtain apt where apt: "from_lines (map Line acc) f = Inr apt"
      and self': "self' = \<lparr>airports = apts @ [apt], path_to_file = Some f\<rparr>"
      by (auto simp: parse_text_def Let_def split: sum.splits)
    from from_lines_header_first [OF apt tl] have "one_header_first apt" .
    with self' new all show ?thesis by auto
  qed
qed

text \<open>
  Claim C9, as the code has it. An airport built by \<open>Airport.from_lines\<close> or
  \<open>Airport.from_str\<close> has exactly one airport-header line in its payload, at whatever
  position the caller put it: only the number of header lines is asserted. Every airport
  that \<open>_parse_text\<close> adds to the container has exactly one header line, and it is the
  first line of the payload.
\<close>

theorem payload_header_invariant:
  "(\<forall>apt. from_lines seg f = Inr apt \<longrightarrow>
      length (filter is_airport_header (text_apt apt)) = 1) \<and>
   (\<forall>apt. from_str t f = Inr apt \<longrightarrow>
      length (filter is_airport_header (text_apt apt)) = 1) \<and>
   (\<forall>self'. parse_text self arg f = Inr self' \<longrightarrow>
      (\<exists>new. airports self' = airports self @ new \<and>
         (\<forall>apt\<in>set new.
            length (filter is_airport_header (text_apt apt)) = 1 \<and> text_apt apt \<noteq> [] \<and>
            is_airport_header (hd (text_apt apt)))))"
proof (intro conjI allI impI)
  fix apt assume "from_lines seg f = Inr apt"
  from from_lines_Inr [OF this] show "length (filter is_airport_header (text_apt apt)) = 1"
    by simp
next
  fix apt assume "from_str t f = Inr apt"
  then obtain ls where "from_lines (map Line ls) f = Inr apt"
    by (auto simp: from_str_def split: sum.splits)
  from from_lines_Inr [OF this] show "length (filter is_airport_header (text_apt apt)) = 1"
    by simp
next
  fix self' assume "parse_text self arg f = Inr self'"
  from parse_text_invariant [OF this]
  show "\<exists>new. airports self' = airports self @ new \<and>
         (\<forall>apt\<in>set new.
            length (filter is_airport_header (text_apt apt)) = 1 \<and> text_apt apt \<noteq> [] \<and>
            is_airport_header (hd (text_apt apt)))"
    by (simp add: one_header_first_def)
qed

theorem payload_header_invariant_witness:
  "from_lines [Str ''1 433 1 0 KSEA Seattle'', Str ''100 runway''] ''apt.dat''
     = Inr \<lparr>name = ''Seattle'', id_apt = ''KSEA'', from_file = ''apt.dat'', has_atc = True,
            elevation_ft_amsl = Float ''433'',
            text_apt = [\<lparr>raw = ''1 433 1 0 KSEA Seattle'', row_code = IntCode 1\<rparr>,
                        \<lparr>raw = ''100 runway'', row_code = IntCode 100\<rparr>]\<rparr>
   \<and> from_str (''1 433 1 0 KSEA Seattle'' @ LF # ''100 runway'') ''apt.dat''
     = Inr \<lparr>name = ''Seattle'', id_apt = ''KSEA'', from_file = ''apt.dat'', has_atc = True,
            elevation_ft_amsl = Float ''433'',
            text_apt = [\<lparr>raw = ''1 433 1 0 KSEA Seattle'', row_code = IntCode 1\<rparr>,
                        \<lparr>raw = ''100 runway'', row_code = IntCode 100\<rparr>]\<rparr>
   \<and> parse_text AptDat_init (TextLines [''1 433 1 0 KSEA Seattle'', ''100 runway'', ''99'']) ''apt.dat''
     = Inr \<lparr>airports =
              [\<lparr>name = ''Seattle'', id_apt = ''KSEA'', from_file = ''apt.dat'', has_atc = True,
                 elevation_ft_amsl = Float ''433'',
                 text_apt = [\<lparr>raw = ''1 433 1 0 KSEA Seattle'', row_code = IntCode 1\<rparr>,
                             \<lparr>raw = ''100 runway'', row_code = IntCode 100\<rparr>]\<rparr>],
            path_to_file = Some ''apt.dat''\<rparr>
   \<and> length (filter is_airport_header
         [\<lparr>raw = ''1 433 1 0 KSEA Seattle'', row_code = IntCode 1\<rparr>,
          \<lparr>raw = ''100 runway'', row_code = IntCode 100\<rparr>]) = 1
   \<and> is_airport_header (hd [\<lparr>raw = ''1 433 1 0 KSEA Seattle'', row_code = IntCode 1\<rparr>,
          \<lparr>raw = ''100 runway'', row_code = IntCode 100\<rparr>])"
  using payload_header_invariant
    [of "[Str ''1 433 1 0 KSEA Seattle'', Str ''100 runway'']" "''apt.dat''"
        "''1 433 1 0 KSEA Seattle'' @ LF # ''100 runway''" AptDat_init
        "TextLines [''1 433 1 0 KSEA Seattle'', ''100 runway'', ''99'']"]
  by (simp add: line_defs token_defs from_lines_def from_str_def parse_text_def AptDat_init_def
      float_defs splitlines_def is_linebreak_def)

text \<open>
  The claim as stated fails for \<open>Airport.from_lines\<close>: a segment that starts with a
  runway line and has its header second is accepted, and the header is not at position 0.
\<close>

theorem payload_header_invariant_counterexample:
  "from_lines [Str ''100 runway'', Str ''1 433 1 0 KSEA Seattle''] ''apt.dat''
     = Inr \<lparr>name = ''Seattle'', id_apt = ''KSEA'', from_file = ''apt.dat'', has_atc = True,
            elevation_ft_amsl = Float ''433'',
            text_apt = [\<lparr>raw = ''100 runway'', row_code = IntCode 100\<rparr>,
                        \<lparr>raw = ''1 433 1 0 KSEA Seattle'', row_code = IntCode 1\<rparr>]\<rparr>
   \<and> \<not> is_airport_header \<lparr>raw = ''100 runway'', row_code = IntCode 100\<rparr>"
  by (simp add: line_defs token_defs from_lines_def float_defs)

section \<open>Round trip of the raw text\<close>

lemma splitlines_from_no_break:
  "\<forall>c\<in>set cur. \<not> is_linebreak c \<Longrightarrow>
     \<forall>l\<in>set (splitlines_from s cur). \<forall>c\<in>set l. \<not> is_linebreak c"
proof (induction s cur rule: splitlines_from.induct)
  case (1 cur)
  then show ?case by simp
next
  case (2 c cur)
  then show ?case by simp
next
  case (3 c d cs cur)
  show ?case
  proof (cases "c = CR \<and> d = LF")
    case True
    with "3.IH"(1) "3.prems" show ?thesis by simp
  next
    case False
    show ?thesis
    proof (cases "is_linebreak c")
      case True
      with "3.IH"(2) [OF False True] "3.prems" False show ?thesis by auto
    next
      case nb: False
      have "\<forall>c\<in>set (cur @ [c]). \<not> is_linebreak c" using "3.prems" nb by simp
      from "3.IH"(3) [OF False nb this] False nb show ?thesis by auto
    qed
  qed
qed

lemma splitlines_no_break: "l \<in> set (splitlines t) \<Longrightarrow> c \<in> set l \<Longrightarrow> \<not> is_linebreak c"
  using splitlines_from_no_break [of "[]" t] by (simp add: splitlines_def)

lemma is_linebreak_CR: "is_linebreak CR"
  by (simp add: is_linebreak_def)

lemma is_linebreak_LF: "is_linebreak LF"
  by (simp add: is_linebreak_def)

lemma splitlines_from_line:
  "\<forall>c\<in>set l. \<not> is_linebreak c \<Longrightarrow> splitlines_from (l @ rest) cur = splitlines_from rest (cur @ l)"
proof (induction l arbitrary: cur)
  case Nil
  then show ?case by simp
next
  case (Cons c l)
  then have c: "\<not> is_linebreak c" by simp
  then have cr: "c \<noteq> CR" using is_linebreak_CR by auto
  show ?case
  proof (cases "l @ rest")
    case Nil
    then show ?thesis using c by simp
  next
    case (Cons d ds)
    then have "splitlines_from ((c # l) @ rest) cur = splitlines_from (l @ rest) (cur @ [c])"
      using c cr by simp
    also have "\<dots> = splitlines_from rest ((cur @ [c]) @ l)"
      using Cons.IH Cons.prems by simp
    finally show ?thesis by simp
  qed
qed

lemma splitlines_from_LF: "splitlines_from (LF # rest) cur = cur # splitlines_from rest []"
  by (cases rest) (simp_all add: is_linebreak_LF)

lemma splitlines_join:
  assumes "ls \<noteq> []" and "last ls \<noteq> []" and "\<forall>l\<in>set ls. \<forall>c\<in>set l. \<not> is_linebreak c"
  shows "splitlines (join [LF] ls) = ls"
  using assms
proof (induction ls rule: induct_list012)
  case 1
  then show ?case by simp
next
  case (2 x)
  then show ?case using splitlines_from_line [of x "[]" "[]"]
    by (simp add: splitlines_def)
next
  case (3 x y zs)
  then have "splitlines (join [LF] (y # zs)) = y # zs" by simp
  moreover have "splitlines_from (x @ LF # join [LF] (y # zs)) [] = x # splitlines_from (join [LF] (y # zs)) []"
    using splitlines_from_line [of x "LF # join [LF] (y # zs)" "[]"] 3(5)
    by (simp add: splitlines_from_LF)
  ultimately show ?case by (simp add: splitlines_def)
qed

text \<open>
  Claim C4. A text is well-formed when its lines hold exactly one airport-header line and
  the fields of that line can be read. Then \<open>Airport.from_str\<close> returns an airport, the
  raw texts of its payload are the lines of the text, and \<open>str\<close> of the airport is those
  lines joined with the newline terminator, byte for byte. When the last line is not empty,
  splitting the serialized text gives the original lines back. (A runway line is not
  needed for any of this.)
\<close>

theorem from_str_roundtrip:
  assumes "collect (map AptDatLine_init (splitlines t)) = Inr ls"
    and "filter is_airport_header ls = [h]"
    and "5 \<le> length (tokens h)"
    and "py_float (tokens h ! 1) = Some elev"
    and "py_int (tokens h ! 2) = Some atc"
  shows "\<exists>apt. from_str t f = Inr apt \<and> map raw (text_apt apt) = splitlines t \<and>
           str_Airport apt = join WED_LINE_ENDING (splitlines t) \<and>
           (last (splitlines t) \<noteq> [] \<longrightarrow> splitlines (str_Airport apt) = splitlines t)"
proof -
  have c: "collect (map to_line (map Line ls)) = Inr ls" by simp
  from from_lines_one_header [OF c assms(2), of f] assms(3-5)
  have fl: "from_lines (map Line ls) f =
          Inr \<lparr>name = join '' '' (drop 5 (tokens h)), id_apt = tokens h ! 4,
               from_file = f, has_atc = (atc \<noteq> 0), elevation_ft_amsl = elev, text_apt = ls\<rparr>"
    by simp
  have raw: "map raw ls = splitlines t" by (rule collect_init_raw [OF assms(1)])
  from assms(2) have "ls \<noteq> []" by auto
  with raw have ne: "splitlines t \<noteq> []" by auto
  have rt: "last (splitlines t) \<noteq> [] \<longrightarrow> splitlines (join [LF] (splitlines t)) = splitlines t"
    using splitlines_join [OF ne] splitlines_no_break [of _ t] by blast
  from fl assms(1) raw rt show ?thesis
    by (simp add: from_str_def str_Airport_def WED_LINE_ENDING_def)
qed

theorem from_str_roundtrip_witness:
  "collect (map AptDatLine_init
      (splitlines (''1   433 1 0 KSEA Seattle  Tacoma Intl'' @ CR # LF # ''100   runway '' @ [LF])))
     = Inr [\<lparr>raw = ''1   433 1 0 KSEA Seattle  Tacoma Intl'', row_code = IntCode 1\<rparr>,
            \<lparr>raw = ''100   runway '', row_code = IntCode 100\<rparr>]
   \<and> filter is_airport_header
         [\<lparr>raw = ''1   433 1 0 KSEA Seattle  Tacoma Intl'', row_code = IntCode 1\<rparr>,
          \<lparr>raw = ''100   runway '', row_code = IntCode 100\<rparr>]
     = [\<lparr>raw = ''1   433 1 0 KSEA Seattle  Tacoma Intl'', row_code = IntCode 1\<rparr>]
   \<and> from_str (''1   433 1 0 KSEA Seattle  Tacoma Intl'' @ CR # LF # ''100   runway '' @ [LF]) ''apt.dat''
     = Inr \<lparr>name = ''Seattle Tacoma Intl'', id_apt = ''KSEA'', from_file = ''apt.dat'',
            has_atc = True, elevation_ft_amsl = Float ''433'',
            text_apt = [\<lparr>raw = ''1   433 1 0 KSEA Seattle  Tacoma Intl'', row_code = IntCode 1\<rparr>,
                        \<lparr>raw = ''100   runway '', row_code = IntCode 100\<rparr>]\<rparr>
   \<and> str_Airport \<lparr>name = ''Seattle Tacoma Intl'', id_apt = ''KSEA'', from_file = ''apt.dat'',
            has_atc = True, elevation_ft_amsl = Float ''433'',
            text_apt = [\<lparr>raw = ''1   433 1 0 KSEA Seattle  Tacoma Intl'', row_code = IntCode 1\<rparr>,
                        \<lparr>raw = ''100   runway '', row_code = IntCode 100\<rparr>]\<rparr>
     = ''1   433 1 0 KSEA Seattle  Tacoma Intl'' @ LF # ''100   runway ''"
proof -
  have sl: "splitlines (''1   433 1 0 KSEA Seattle  Tacoma Intl'' @ CR # LF # ''100   runway '' @ [LF])
     = [''1   433 1 0 KSEA Seattle  Tacoma Intl'', ''100   runway '']"
    by (simp add: splitlines_def is_linebreak_def)
  have c: "collect (map AptDatLine_init
      (splitlines (''1   433 1 0 KSEA Seattle  Tacoma Intl'' @ CR # LF # ''100   runway '' @ [LF])))
     = Inr [\<lparr>raw = ''1   433 1 0 KSEA Seattle  Tacoma Intl'', row_code = IntCode 1\<rparr>,
            \<lparr>raw = ''100   runway '', row_code = IntCode 100\<rparr>]"
    by (simp add: splitlines_def is_linebreak_def line_defs)
  have h: "filter is_airport_header
         [\<lparr>raw = ''1   433 1 0 KSEA Seattle  Tacoma Intl'', row_code = IntCode 1\<rparr>,
          \<lparr>raw = ''100   runway '', row_code = IntCode 100\<rparr>]
     = [\<lparr>raw = ''1   433 1 0 KSEA Seattle  Tacoma Intl'', row_code = IntCode 1\<rparr>]"
    by (simp add: is_airport_header_def)
  have n: "5 \<le> length (tokens \<lparr>raw = ''1   433 1 0 KSEA Seattle  Tacoma Intl'', row_code = IntCode 1\<rparr>)"
    by (simp add: header_tokens)
  have e: "py_float (tokens \<lparr>raw = ''1   433 1 0 KSEA Seattle  Tacoma Intl'', row_code = IntCode 1\<rparr> ! 1)
     = Some (Float ''433'')"
    by (simp add: header_tokens float_defs int_defs)
  have a: "py_int (tokens \<lparr>raw = ''1   433 1 0 KSEA Seattle  Tacoma Intl'', row_code = IntCode 1\<rparr> ! 2)
     = Some 1"
    by (simp add: header_tokens int_defs)
  have fs: "from_str (''1   433 1 0 KSEA Seattle  Tacoma Intl'' @ CR # LF # ''100   runway '' @ [LF]) ''apt.dat''
     = Inr \<lparr>name = ''Seattle Tacoma Intl'', id_apt = ''KSEA'', from_file = ''apt.dat'',
            has_atc = True, elevation_ft_amsl = Float ''433'',
            text_apt = [\<lparr>raw = ''1   433 1 0 KSEA Seattle  Tacoma Intl'', row_code = IntCode 1\<rparr>,
                        \<lparr>raw = ''100   runway '', row_code = IntCode 100\<rparr>]\<rparr>"
    by (simp add: from_str_def from_lines_def splitlines_def is_linebreak_def line_defs token_defs
        float_defs)
  from from_str_roundtrip [OF c h n e a, of "''apt.dat''"] fs
  have "str_Airport \<lparr>name = ''Seattle Tacoma Intl'', id_apt = ''KSEA'', from_file = ''apt.dat'',
            has_atc = True, elevation_ft_amsl = Float ''433'',
            text_apt = [\<lparr>raw = ''1   433 1 0 KSEA Seattle  Tacoma Intl'', row_code = IntCode 1\<rparr>,
                        \<lparr>raw = ''100   runway '', row_code = IntCode 100\<rparr>]\<rparr>
     = join WED_LINE_ENDING
         (splitlines (''1   433 1 0 KSEA Seattle  Tacoma Intl'' @ CR # LF # ''100   runway '' @ [LF]))"
    by auto
  then have st: "str_Airport \<lparr>name = ''Seattle Tacoma Intl'', id_apt = ''KSEA'', from_file = ''apt.dat'',
            has_atc = True, elevation_ft_amsl = Float ''433'',
            text_apt = [\<lparr>raw = ''1   433 1 0 KSEA Seattle  Tacoma Intl'', row_code = IntCode 1\<rparr>,
                        \<lparr>raw = ''100   runway '', row_code = IntCode 100\<rparr>]\<rparr>
     = ''1   433 1 0 KSEA Seattle  Tacoma Intl'' @ LF # ''100   runway ''"
    by (simp add: splitlines_def is_linebreak_def WED_LINE_ENDING_def)
  show ?thesis
    by (intro conjI) (rule c, rule h, rule fs, rule st)
qed

section \<open>Latitude and longitude\<close>

lemma find_filter: "find P xs = (case filter P xs of [] \<Rightarrow> None | x # _ \<Rightarrow> Some x)"
  by (induction xs) auto

lemma first_runway:
  "find is_runway (text_apt a) = Some r \<Longrightarrow>
     \<exists>rs. filter is_runway (text_apt a) = r # rs \<and> is_runway r"
  by (auto simp: find_filter split: list.splits dest: filter_eq_ConsD)

lemmas geo_defs = latitude_def longitude_def runway_type_def RunwayType_of_def half_sum_def
  find_filter

text \<open>
  Claim C2. \<open>latitude\<close> and \<open>longitude\<close> fail with the assertion when the payload
  has no runway line. Otherwise the first runway line \<open>r\<close> decides: for row code 100
  the results are \<open>0.5 * (float(tokens[9]) + float(tokens[18]))\<close> and
  \<open>0.5 * (float(tokens[10]) + float(tokens[19]))\<close>, for row code 101 the same with tokens
  4, 7 and 5, 8, and for row code 102 they are \<open>float(tokens[2])\<close> and
  \<open>float(tokens[3])\<close>. Reading a token raises \<open>IndexError\<close> when the line is too short
  and \<open>ValueError\<close> when the token is no float literal; the first failure is the result.
\<close>

theorem latitude_longitude_first_runway:
  "(find is_runway (text_apt a) = None \<longrightarrow>
      latitude a = Inl (AssertionError NoRunwayLines) \<and>
      longitude a = Inl (AssertionError NoRunwayLines)) \<and>
   (\<forall>r. find is_runway (text_apt a) = Some r \<longrightarrow>
      (row_code r = IntCode 100 \<or> row_code r = IntCode 101 \<or> row_code r = IntCode 102) \<and>
      (row_code r = IntCode 100 \<longrightarrow>
         latitude a = half_sum (float_token r 9) (float_token r 18) \<and>
         longitude a = half_sum (float_token r 10) (float_token r 19)) \<and>
      (row_code r = IntCode 101 \<longrightarrow>
         latitude a = half_sum (float_token r 4) (float_token r 7) \<and>
         longitude a = half_sum (float_token r 5) (float_token r 8)) \<and>
      (row_code r = IntCode 102 \<longrightarrow>
         latitude a = float_token r 2 \<and> longitude a = float_token r 3)) \<and>
   (\<forall>r i. float_token r i =
      (if i < length (tokens r)
       then (case py_float (tokens r ! i) of None \<Rightarrow> Inl ValueError | Some x \<Rightarrow> Inr x)
       else Inl IndexError)) \<and>
   (\<forall>x y. half_sum (Inr x) (Inr y) = Inr (FMul (Float ''0.5'') (FAdd x y)))"
proof (intro conjI allI impI)
  assume "find is_runway (text_apt a) = None"
  then have "filter is_runway (text_apt a) = []"
    by (simp add: find_filter split: list.splits)
  then show "latitude a = Inl (AssertionError NoRunwayLines)"
    and "longitude a = Inl (AssertionError NoRunwayLines)"
    by (simp_all add: latitude_def longitude_def)
next
  fix r assume "find is_runway (text_apt a) = Some r"
  then obtain rs where f: "filter is_runway (text_apt a) = r # rs" and r: "is_runway r"
    using first_runway by blast
  from r show "row_code r = IntCode 100 \<or> row_code r = IntCode 101 \<or> row_code r = IntCode 102"
    by (simp add: is_runway_def)
  {
    assume c: "row_code r = IntCode 100"
    with f r show "latitude a = half_sum (float_token r 9) (float_token r 18)"
      by (simp add: latitude_def index_def runway_type_def RunwayType_of_def)
    from c f r show "longitude a = half_sum (float_token r 10) (float_token r 19)"
      by (simp add: longitude_def index_def runway_type_def RunwayType_of_def)
  }
  {
    assume c: "row_code r = IntCode 101"
    with f r show "latitude a = half_sum (float_token r 4) (float_token r 7)"
      by (simp add: latitude_def index_def runway_type_def RunwayType_of_def)
    from c f r show "longitude a = half_sum (float_token r 5) (float_token r 8)"
      by (simp add: longitude_def index_def runway_type_def RunwayType_of_def)
  }
  {
    assume c: "row_code r = IntCode 102"
    with f r show "latitude a = float_token r 2"
      by (simp add: latitude_def index_def runway_type_def RunwayType_of_def)
    from c f r show "longitude a = float_token r 3"
      by (simp add: longitude_def index_def runway_type_def RunwayType_of_def)
  }
next
  fix r i show "float_token r i =
      (if i < length (tokens r)
       then (case py_float (tokens r ! i) of None \<Rightarrow> Inl ValueError | Some x \<Rightarrow> Inr x)
       else Inl IndexError)"
    by (rule float_token_eq)
next
  fix x y show "half_sum (Inr x) (Inr y) = Inr (FMul (Float ''0.5'') (FAdd x y))"
    by (simp add: half_sum_def)
qed

theorem latitude_longitude_first_runway_witness:
  "(find is_runway (text_apt \<lparr>name = ''Seattle'', id_apt = ''KSEA'', from_file = [], has_atc = True,
        elevation_ft_amsl = Float ''433'',
        text_apt = [\<lparr>raw = ''1 433 1 0 KSEA Seattle'', row_code = IntCode 1\<rparr>]\<rparr>) = None
    \<and> latitude \<lparr>name = ''Seattle'', id_apt = ''KSEA'', from_file = [], has_atc = True,
        elevation_ft_amsl = Float ''433'',
        text_apt = [\<lparr>raw = ''1 433 1 0 KSEA Seattle'', row_code = IntCode 1\<rparr>]\<rparr>
        = Inl (AssertionError NoRunwayLines))
   \<and> (find is_runway (text_apt \<lparr>name = ''Seattle'', id_apt = ''KSEA'', from_file = [], has_atc = True,
        elevation_ft_amsl = Float ''433'',
        text_apt = [\<lparr>raw = ''1 433 1 0 KSEA Seattle'', row_code = IntCode 1\<rparr>,
          \<lparr>raw = ''100 45.72 1 0 0.25 0 2 1 16L 47.0 -122.0 0 0 2 0 0 1 34R 47.5 -122.5 0 0 2 0 0 1'',
            row_code = IntCode 100\<rparr>,
          \<lparr>raw = ''102 H1 34.5 -118.2 0 10 10 1 0 0 0.25 0'', row_code = IntCode 102\<rparr>]\<rparr>)
        = Some \<lparr>raw = ''100 45.72 1 0 0.25 0 2 1 16L 47.0 -122.0 0 0 2 0 0 1 34R 47.5 -122.5 0 0 2 0 0 1'',
            row_code = IntCode 100\<rparr>
    \<and> latitude \<lparr>name = ''Seattle'', id_apt = ''KSEA'', from_file = [], has_atc = True,
        elevation_ft_amsl = Float ''433'',
        text_apt = [\<lparr>raw = ''1 433 1 0 KSEA Seattle'', row_code = IntCode 1\<rparr>,
          \<lparr>raw = ''100 45.72 1 0 0.25 0 2 1 16L 47.0 -122.0 0 0 2 0 0 1 34R 47.5 -122.5 0 0 2 0 0 1'',
            row_code = IntCode 100\<rparr>,
          \<lparr>raw = ''102 H1 34.5 -118.2 0 10 10 1 0 0 0.25 0'', row_code = IntCode 102\<rparr>]\<rparr>
        = Inr (FMul (Float ''0.5'') (FAdd (Float ''47.0'') (Float ''47.5'')))
    \<and> longitude \<lparr>name = ''Seattle'', id_apt = ''KSEA'', from_file = [], has_atc = True,
        elevation_ft_amsl = Float ''433'',
        text_apt = [\<lparr>raw = ''1 433 1 0 KSEA Seattle'', row_code = IntCode 1\<rparr>,
          \<lparr>raw = ''100 45.72 1 0 0.25 0 2 1 16L 47.0 -122.0 0 0 2 0 0 1 34R 47.5 -122.5 0 0 2 0 0 1'',
            row_code = IntCode 100\<rparr>,
          \<lparr>raw = ''102 H1 34.5 -118.2 0 10 10 1 0 0 0.25 0'', row_code = IntCode 102\<rparr>]\<rparr>
        = Inr (FMul (Float ''0.5'') (FAdd (Float ''-122.0'') (Float ''-122.5''))))
   \<and> (find is_runway (text_apt \<lparr>name = ''Lake'', id_apt = ''W01'', from_file = [], has_atc = False,
        elevation_ft_amsl = Float ''0'',
        text_apt = [\<lparr>raw = ''16 0 0 0 W01 Lake'', row_code = IntCode 16\<rparr>,
          \<lparr>raw = ''101 49 1 08 35.04 -106.59 26 35.05 -106.60'', row_code = IntCode 101\<rparr>]\<rparr>)
        = Some \<lparr>raw = ''101 49 1 08 35.04 -106.59 26 35.05 -106.60'', row_code = IntCode 101\<rparr>
    \<and> latitude \<lparr>name = ''Lake'', id_apt = ''W01'', from_file = [], has_atc = False,
        elevation_ft_amsl = Float ''0'',
        text_apt = [\<lparr>raw = ''16 0 0 0 W01 Lake'', row_code = IntCode 16\<rparr>,
          \<lparr>raw = ''101 49 1 08 35.04 -106.59 26 35.05 -106.60'', row_code = IntCode 101\<rparr>]\<rparr>
        = Inr (FMul (Float ''0.5'') (FAdd (Float ''35.04'') (Float ''35.05'')))
    \<and> longitude \<lparr>name = ''Lake'', id_apt = ''W01'', from_file = [], has_atc = False,
        elevation_ft_amsl = Float ''0'',
        text_apt = [\<lparr>raw = ''16 0 0 0 W01 Lake'', row_code = IntCode 16\<rparr>,
          \<lparr>raw = ''101 49 1 08 35.04 -106.59 26 35.05 -106.60'', row_code = IntCode 101\<rparr>]\<rparr>
        = Inr (FMul (Float ''0.5'') (FAdd (Float ''-106.59'') (Float ''-106.60''))))
   \<and> (find is_runway (text_apt \<lparr>name = ''Pad'', id_apt = ''H01'', from_file = [], has_atc = False,
        elevation_ft_amsl = Float ''10'',
        text_apt = [\<lparr>raw = ''17 10 0 0 H01 Pad'', row_code = IntCode 17\<rparr>,
          \<lparr>raw = ''102 H1 34.5 -118.2 0 10 10 1 0 0 0.25 0'', row_code = IntCode 102\<rparr>]\<rparr>)
        = Some \<lparr>raw = ''102 H1 34.5 -118.2 0 10 10 1 0 0 0.25 0'', row_code = IntCode 102\<rparr>
    \<and> latitude \<lparr>name = ''Pad'', id_apt = ''H01'', from_file = [], has_atc = False,
        elevation_ft_amsl = Float ''10'',
        text_apt = [\<lparr>raw = ''17 10 0 0 H01 Pad'', row_code = IntCode 17\<rparr>,
          \<lparr>raw = ''102 H1 34.5 -118.2 0 10 10 1 0 0 0.25 0'', row_code = IntCode 102\<rparr>]\<rparr>
        = Inr (Float ''34.5'')
    \<and> longitude \<lparr>name = ''Pad'', id_apt = ''H01'', from_file = [], has_atc = False,
        elevation_ft_amsl = Float ''10'',
        text_apt = [\<lparr>raw = ''17 10 0 0 H01 Pad'', row_code = IntCode 17\<rparr>,
          \<lparr>raw = ''102 H1 34.5 -118.2 0 10 10 1 0 0 0.25 0'', row_code = IntCode 102\<rparr>]\<rparr>
        = Inr (Float ''-118.2''))"
  using
    latitude_longitude_first_runway [of "\<lparr>name = ''Seattle'', id_apt = ''KSEA'', from_file = [], has_atc = True,
        elevation_ft_amsl = Float ''433'',
        text_apt = [\<lparr>raw = ''1 433 1 0 KSEA Seattle'', row_code = IntCode 1\<rparr>]\<rparr>"]
    latitude_longitude_first_runway [of "\<lparr>name = ''Seattle'', id_apt = ''KSEA'', from_file = [], has_atc = True,
        elevation_ft_amsl = Float ''433'',
        text_apt = [\<lparr>raw = ''1 433 1 0 KSEA Seattle'', row_code = IntCode 1\<rparr>,
          \<lparr>raw = ''100 45.72 1 0 0.25 0 2 1 16L 47.0 -122.0 0 0 2 0 0 1 34R 47.5 -122.5 0 0 2 0 0 1'',
            row_code = IntCode 100\<rparr>,
          \<lparr>raw = ''102 H1 34.5 -118.2 0 10 10 1 0 0 0.25 0'', row_code = IntCode 102\<rparr>]\<rparr>"]
    latitude_longitude_first_runway [of "\<lparr>name = ''Lake'', id_apt = ''W01'', from_file = [], has_atc = False,
        elevation_ft_amsl = Float ''0'',
        text_apt = [\<lparr>raw = ''16 0 0 0 W01 Lake'', row_code = IntCode 16\<rparr>,
          \<lparr>raw = ''101 49 1 08 35.04 -106.59 26 35.05 -106.60'', row_code = IntCode 101\<rparr>]\<rparr>"]
    latitude_longitude_first_runway [of "\<lparr>name = ''Pad'', id_apt = ''H01'', from_file = [], has_atc = False,
        elevation_ft_amsl = Float ''10'',
        text_apt = [\<lparr>raw = ''17 10 0 0 H01 Pad'', row_code = IntCode 17\<rparr>,
          \<lparr>raw = ''102 H1 34.5 -118.2 0 10 10 1 0 0 0.25 0'', row_code = IntCode 102\<rparr>]\<rparr>"]
  by (simp add: geo_defs is_runway_def index_def token_defs split_space_def strip_def isspace_def
      float_defs int_defs)

section \<open>Container queries\<close>

lemma upper_char_idem: "upper_char (upper_char c) = upper_char c"
  by (simp add: upper_char_def)

lemma upper_idem: "upper (upper s) = upper s"
  by (simp add: upper_def upper_char_idem)

text \<open>
  Claim C8. \<open>search_by_id\<close> collects the airports whose upper-cased id equals the
  upper-cased key. With no match it returns \<open>None\<close>, with exactly one match it returns
  that airport, and with more than one match its assertion fails. The case of the key
  does not matter: the key in upper case gives the same result.
\<close>

theorem search_by_id_cases:
  "(filter (\<lambda>apt. upper (id_apt apt) = upper apt_id) (airports self) = [] \<longrightarrow>
      search_by_id self apt_id = Inr None) \<and>
   (\<forall>apt. filter (\<lambda>apt. upper (id_apt apt) = upper apt_id) (airports self) = [apt] \<longrightarrow>
      search_by_id self apt_id = Inr (Some apt)) \<and>
   (1 < length (filter (\<lambda>apt. upper (id_apt apt) = upper apt_id) (airports self)) \<longrightarrow>
      search_by_id self apt_id = Inl (AssertionError DuplicateIds)) \<and>
   search_by_id self (upper apt_id) = search_by_id self apt_id"
  by (auto simp: search_by_id_def search_by_predicate_def index_def Let_def upper_idem)

theorem search_by_id_cases_witness:
  "(filter (\<lambda>apt. upper (id_apt apt) = upper ''KPDX'')
      (airports \<lparr>airports = [\<lparr>name = ''Seattle'', id_apt = ''ksea'', from_file = [], has_atc = True,
          elevation_ft_amsl = Float ''433'', text_apt = []\<rparr>], path_to_file = None\<rparr>) = []
    \<and> search_by_id \<lparr>airports = [\<lparr>name = ''Seattle'', id_apt = ''ksea'', from_file = [], has_atc = True,
          elevation_ft_amsl = Float ''433'', text_apt = []\<rparr>], path_to_file = None\<rparr> ''KPDX'' = Inr None)
   \<and> (filter (\<lambda>apt. upper (id_apt apt) = upper ''KSEA'')
      (airports \<lparr>airports = [\<lparr>name = ''Seattle'', id_apt = ''ksea'', from_file = [], has_atc = True,
          elevation_ft_amsl = Float ''433'', text_apt = []\<rparr>], path_to_file = None\<rparr>)
        = [\<lparr>name = ''Seattle'', id_apt = ''ksea'', from_file = [], has_atc = True,
          elevation_ft_amsl = Float ''433'', text_apt = []\<rparr>]
    \<and> search_by_id \<lparr>airports = [\<lparr>name = ''Seattle'', id_apt = ''ksea'', from_file = [], has_atc = True,
          elevation_ft_amsl = Float ''433'', text_apt = []\<rparr>], path_to_file = None\<rparr> ''KSEA''
        = Inr (Some \<lparr>name = ''Seattle'', id_apt = ''ksea'', from_file = [], has_atc = True,
          elevation_ft_amsl = Float ''433'', text_apt = []\<rparr>))
   \<and> (1 < length (filter (\<lambda>apt. upper (id_apt apt) = upper ''kSea'')
      (airports \<lparr>airports = [\<lparr>name = ''Seattle'', id_apt = ''ksea'', from_file = [], has_atc = True,
          elevation_ft_amsl = Float ''433'', text_apt = []\<rparr>,
        \<lparr>name = ''Other'', id_apt = ''KSEA'', from_file = [], has_atc = False,
          elevation_ft_amsl = Float ''0'', text_apt = []\<rparr>], path_to_file = None\<rparr>))
    \<and> search_by_id \<lparr>airports = [\<lparr>name = ''Seattle'', id_apt = ''ksea'', from_file = [], has_atc = True,
          elevation_ft_amsl = Float ''433'', text_apt = []\<rparr>,
        \<lparr>name = ''Other'', id_apt = ''KSEA'', from_file = [], has_atc = False,
          elevation_ft_amsl = Float ''0'', text_apt = []\<rparr>], path_to_file = None\<rparr> ''kSea''
        = Inl (AssertionError DuplicateIds))"
  using
    search_by_id_cases [of "''KPDX''" "\<lparr>airports = [\<lparr>name = ''Seattle'', id_apt = ''ksea'', from_file = [], has_atc = True,
          elevation_ft_amsl = Float ''433'', text_apt = []\<rparr>], path_to_file = None\<rparr>"]
    search_by_id_cases [of "''KSEA''" "\<lparr>airports = [\<lparr>name = ''Seattle'', id_apt = ''ksea'', from_file = [], has_atc = True,
          elevation_ft_amsl = Float ''433'', text_apt = []\<rparr>], path_to_file = None\<rparr>"]
    search_by_id_cases [of "''kSea''" "\<lparr>airports = [\<lparr>name = ''Seattle'', id_apt = ''ksea'', from_file = [], has_atc = True,
          elevation_ft_amsl = Float ''433'', text_apt = []\<rparr>,
        \<lparr>name = ''Other'', id_apt = ''KSEA'', from_file = [], has_atc = False,
          elevation_ft_amsl = Float ''0'', text_apt = []\<rparr>], path_to_file = None\<rparr>"]
  by (simp add: upper_def upper_char_def)

text \<open>
  Claim C10. With \<open>n\<close> airports and an integer key \<open>k\<close>, \<open>-n \<le> k \<le> -1\<close>, the assertion
  \<open>key < len(self.airports)\<close> holds and the list is indexed from its end, so
  \<open>__getitem__\<close> returns the airport at position \<open>n + k\<close>.
\<close>

theorem getitem_negative_index:
  assumes "- int (length (airports self)) \<le> k" and "k \<le> - 1"
  shows "getitem self (IntKey k) =
           Inr (OneAirport (airports self ! nat (int (length (airports self)) + k)))"
  using assms by (simp add: getitem_def py_index_def Let_def)

theorem getitem_negative_index_witness:
  "- int (length (airports \<lparr>airports =
        [\<lparr>name = ''A'', id_apt = ''KAAA'', from_file = [], has_atc = False,
           elevation_ft_amsl = Float ''0'', text_apt = []\<rparr>,
         \<lparr>name = ''B'', id_apt = ''KBBB'', from_file = [], has_atc = True,
           elevation_ft_amsl = Float ''5'', text_apt = []\<rparr>], path_to_file = None\<rparr>)) \<le> - 2
   \<and> (- 2 :: int) \<le> - 1
   \<and> getitem \<lparr>airports =
        [\<lparr>name = ''A'', id_apt = ''KAAA'', from_file = [], has_atc = False,
           elevation_ft_amsl = Float ''0'', text_apt = []\<rparr>,
         \<lparr>name = ''B'', id_apt = ''KBBB'', from_file = [], has_atc = True,
           elevation_ft_amsl = Float ''5'', text_apt = []\<rparr>], path_to_file = None\<rparr> (IntKey (- 2))
       = Inr (OneAirport \<lparr>name = ''A'', id_apt = ''KAAA'', from_file = [], has_atc = False,
           elevation_ft_amsl = Float ''0'', text_apt = []\<rparr>)"
  using getitem_negative_index [of "\<lparr>airports =
        [\<lparr>name = ''A'', id_apt = ''KAAA'', from_file = [], has_atc = False,
           elevation_ft_amsl = Float ''0'', text_apt = []\<rparr>,
         \<lparr>name = ''B'', id_apt = ''KBBB'', from_file = [], has_atc = True,
           elevation_ft_amsl = Float ''5'', text_apt = []\<rparr>], path_to_file = None\<rparr>" "- 2"]
  by simp

end
